theory Spec2Isabelle
  imports Complex_Main "HOL-Library.AList"
begin

section \<open>Values and exceptions of the Python program\<close>

text \<open>
  The program is \<^verbatim>\<open>AirplaneTracking/main.py\<close>. Its feed delivers JSON, so the values read
  from the feed are dynamically typed. Python floats are modelled as reals: rounding,
  infinities and NaN are outside the model. Every exception the modelled code can raise is
  a constructor of \<open>error\<close>; a function that can raise returns \<open>error + 'a\<close>.
\<close>

datatype json =
    JNull
  | JBool bool
  | JInt int
  | JFloat real
  | JStr string
  | JList "json list"
  | JDict "(string \<times> json) list"

datatype error = ZeroDivisionError | TypeError | AttributeError | IndexError | KeyError

text \<open>Truth value of an object, as \<^verbatim>\<open>if x\<close> tests it.\<close>

fun py_truthy :: "json \<Rightarrow> bool" where
  "py_truthy JNull = False"
| "py_truthy (JBool b) = b"
| "py_truthy (JInt i) = (i \<noteq> 0)"
| "py_truthy (JFloat r) = (r \<noteq> 0)"
| "py_truthy (JStr s) = (s \<noteq> [])"
| "py_truthy (JList xs) = (xs \<noteq> [])"
| "py_truthy (JDict kvs) = (kvs \<noteq> [])"

text \<open>
  The number a value stands for in a comparison or in arithmetic: \<^verbatim>\<open>bool\<close> is a subclass of
  \<^verbatim>\<open>int\<close>; every other kind of value raises \<^verbatim>\<open>TypeError\<close> when compared with a float.
\<close>

fun py_number :: "json \<Rightarrow> real option" where
  "py_number (JBool b) = Some (if b then 1 else 0)"
| "py_number (JInt i) = Some (of_int i)"
| "py_number (JFloat r) = Some r"
| "py_number _ = None"

text \<open>\<^verbatim>\<open>int(x)\<close> of a float truncates towards zero.\<close>

definition py_int :: "real \<Rightarrow> int" where
  "py_int x = (if 0 \<le> x then \<lfloor>x\<rfloor> else \<lceil>x\<rceil>)"

text \<open>\<^verbatim>\<open>str.strip()\<close>: the ASCII characters for which \<^verbatim>\<open>isspace()\<close> holds are removed at both ends.\<close>

definition py_isspace :: "char \<Rightarrow> bool" where
  "py_isspace c = ((of_char c :: nat) \<in> {9, 10, 11, 12, 13, 28, 29, 30, 31, 32})"

definition py_strip :: "string \<Rightarrow> string" where
  "py_strip s = rev (dropWhile py_isspace (rev (dropWhile py_isspace s)))"

section \<open>Constants\<close>

definition SCREEN_WIDTH :: int where "SCREEN_WIDTH = 1200"
definition SCREEN_HEIGHT :: int where "SCREEN_HEIGHT = 800"

definition ASIA_MIN_LAT :: real where "ASIA_MIN_LAT = -10"
definition ASIA_MAX_LAT :: real where "ASIA_MAX_LAT = 55"
definition ASIA_MIN_LON :: real where "ASIA_MIN_LON = 60"
definition ASIA_MAX_LON :: real where "ASIA_MAX_LON = 150"

definition COLOR_AIRPLANE_DEFAULT :: "int \<times> int \<times> int" where
  "COLOR_AIRPLANE_DEFAULT = (255, 200, 0)"

definition API_UPDATE_INTERVAL :: real where "API_UPDATE_INTERVAL = 10"

definition INTERPOLATION_STEPS :: int where "INTERPOLATION_STEPS = 30"

section \<open>CoordinateTransformer\<close>

record CoordinateTransformer =
  min_lat :: real
  max_lat :: real
  min_lon :: real
  max_lon :: real
  screen_width :: int
  screen_height :: int
  zoom :: real
  pan_x :: real
  pan_y :: real

text \<open>
  \<^verbatim>\<open>CoordinateTransformer.__init__\<close> stores its nine arguments and checks nothing; it cannot
  raise. The result type is a sum all the same, so that the absence of an error is a
  statement about the model and not an artefact of its type.
\<close>

definition CoordinateTransformer_init ::
  "real \<Rightarrow> real \<Rightarrow> real \<Rightarrow> real \<Rightarrow> int \<Rightarrow> int \<Rightarrow> real \<Rightarrow> real \<Rightarrow> real
     \<Rightarrow> error + CoordinateTransformer" where
  "CoordinateTransformer_init mnlat mxlat mnlon mxlon w h z px py =
     Inr \<lparr>min_lat = mnlat, max_lat = mxlat, min_lon = mnlon, max_lon = mxlon,
          screen_width = w, screen_height = h, zoom = z, pan_x = px, pan_y = py\<rparr>"

text \<open>The transformer the application builds: default zoom 1.0, pan (0, 0).\<close>

definition asia_transformer :: CoordinateTransformer where
  "asia_transformer =
     \<lparr>min_lat = ASIA_MIN_LAT, max_lat = ASIA_MAX_LAT, min_lon = ASIA_MIN_LON,
      max_lon = ASIA_MAX_LON, screen_width = SCREEN_WIDTH, screen_height = SCREEN_HEIGHT,
      zoom = 1, pan_x = 0, pan_y = 0\<rparr>"

text \<open>
  \<^verbatim>\<open>geo_to_screen\<close>. A float division by zero raises \<^verbatim>\<open>ZeroDivisionError\<close> in Python; the
  longitude quotient (line 93) is evaluated before the latitude quotient (line 94).
\<close>

definition geo_to_screen :: "CoordinateTransformer \<Rightarrow> real \<Rightarrow> real \<Rightarrow> error + (int \<times> int)" where
  "geo_to_screen tr lat lon =
     (if max_lon tr - min_lon tr = 0 then Inl ZeroDivisionError
      else if max_lat tr - min_lat tr = 0 then Inl ZeroDivisionError
      else
        let norm_x = (lon - min_lon tr) / (max_lon tr - min_lon tr);
            norm_y = (max_lat tr - lat) / (max_lat tr - min_lat tr);
            center_x = of_int (screen_width tr) / 2;
            center_y = of_int (screen_height tr) / 2;
            x0 = norm_x * of_int (screen_width tr);
            y0 = norm_y * of_int (screen_height tr);
            x1 = center_x + (x0 - center_x) * zoom tr;
            y1 = center_y + (y0 - center_y) * zoom tr;
            x2 = x1 + pan_x tr;
            y2 = y1 + pan_y tr
        in Inr (py_int x2, py_int y2))"

definition is_in_view :: "CoordinateTransformer \<Rightarrow> real \<Rightarrow> real \<Rightarrow> bool" where
  "is_in_view tr lat lon =
     (min_lat tr \<le> lat \<and> lat \<le> max_lat tr \<and> min_lon tr \<le> lon \<and> lon \<le> max_lon tr)"

definition linear_interpolation :: "real \<Rightarrow> real \<Rightarrow> real \<Rightarrow> real" where
  "linear_interpolation start end' t = start + (end' - start) * t"

section \<open>Airplane\<close>

text \<open>
  The positions are numbers (the parser only lets numbers through); heading, altitude and
  velocity are stored as the feed gave them, so they stay dynamically typed.
\<close>

record Airplane =
  icao24 :: json
  callsign :: string
  target_lat :: real
  target_lon :: real
  display_lat :: real
  display_lon :: real
  heading :: json
  altitude :: json
  velocity :: json
  interp_step :: int
  prev_lat :: real
  prev_lon :: real
  trail :: "(real \<times> real) list"
  max_trail_length :: nat
  color :: "int \<times> int \<times> int"

text \<open>
  \<^verbatim>\<open>assign_color_by_callsign\<close>: a hash of the first three characters. \<^verbatim>\<open>ord\<close> is the code of
  the character (strings are byte strings here).
\<close>

definition assign_color_by_callsign :: "Airplane \<Rightarrow> Airplane" where
  "assign_color_by_callsign a =
     (let airline_code = (if length (callsign a) \<ge> 3 then take 3 (callsign a) else ''UNK'');
          hash_val = sum_list (map (\<lambda>c. (of_char c :: int)) airline_code);
          r = (hash_val * 67) mod 200 + 55;
          g = (hash_val * 131) mod 200 + 55;
          b = (hash_val * 197) mod 200 + 55
      in a\<lparr>color := (r, g, b)\<rparr>)"

text \<open>
  \<^verbatim>\<open>callsign.strip() if callsign else "Unknown"\<close>: a false value gives \<^verbatim>\<open>"Unknown"\<close>, a
  non-empty string is stripped, and any other true value has no \<^verbatim>\<open>strip\<close> attribute.
\<close>

definition init_callsign :: "json \<Rightarrow> error + string" where
  "init_callsign c =
     (if py_truthy c then (case c of JStr s \<Rightarrow> Inr (py_strip s) | _ \<Rightarrow> Inl AttributeError)
      else Inr ''Unknown'')"

definition Airplane_init ::
  "json \<Rightarrow> json \<Rightarrow> real \<Rightarrow> real \<Rightarrow> json \<Rightarrow> json \<Rightarrow> json \<Rightarrow> error + Airplane" where
  "Airplane_init icao cs lat lon hdg alt vel =
     (case init_callsign cs of
        Inl e \<Rightarrow> Inl e
      | Inr name \<Rightarrow>
          Inr (assign_color_by_callsign
            \<lparr>icao24 = icao, callsign = name,
             target_lat = lat, target_lon = lon,
             display_lat = lat, display_lon = lon,
             heading = (if hdg \<noteq> JNull then hdg else JInt 0),
             altitude = (if alt \<noteq> JNull then alt else JInt 0),
             velocity = (if vel \<noteq> JNull then vel else JInt 0),
             interp_step = 0,
             prev_lat = lat, prev_lon = lon,
             trail = [(lat, lon)],
             max_trail_length = 20,
             color = COLOR_AIRPLANE_DEFAULT\<rparr>))"

definition update_target :: "Airplane \<Rightarrow> real \<Rightarrow> real \<Rightarrow> json \<Rightarrow> json \<Rightarrow> json \<Rightarrow> Airplane" where
  "update_target a lat lon hdg alt vel =
     (let a1 = a\<lparr>prev_lat := display_lat a, prev_lon := display_lon a\<rparr>;
          a2 = a1\<lparr>target_lat := lat, target_lon := lon,
                  heading := (if hdg \<noteq> JNull then hdg else heading a1),
                  altitude := (if alt \<noteq> JNull then alt else altitude a1),
                  velocity := (if vel \<noteq> JNull then vel else velocity a1)\<rparr>;
          a3 = a2\<lparr>interp_step := 0\<rparr>;
          a4 = a3\<lparr>trail := trail a3 @ [(lat, lon)]\<rparr>
      in if length (trail a4) > max_trail_length a4 then a4\<lparr>trail := tl (trail a4)\<rparr> else a4)"

definition interpolate :: "Airplane \<Rightarrow> Airplane" where
  "interpolate a =
     (if interp_step a < INTERPOLATION_STEPS then
        let t = of_int (interp_step a) / of_int INTERPOLATION_STEPS
        in a\<lparr>display_lat := linear_interpolation (prev_lat a) (target_lat a) t,
             display_lon := linear_interpolation (prev_lon a) (target_lon a) t,
             interp_step := interp_step a + 1\<rparr>
      else a\<lparr>display_lat := target_lat a, display_lon := target_lon a\<rparr>)"

text \<open>A sequence of calls on one airplane, oldest first.\<close>

datatype call = UpdateTarget real real json json json | Interpolate

fun apply_call :: "Airplane \<Rightarrow> call \<Rightarrow> Airplane" where
  "apply_call a (UpdateTarget lat lon hdg alt vel) = update_target a lat lon hdg alt vel"
| "apply_call a Interpolate = interpolate a"

definition apply_calls :: "Airplane \<Rightarrow> call list \<Rightarrow> Airplane" where
  "apply_calls a cs = foldl apply_call a cs"

section \<open>AviationAPIFetcher\<close>

record AviationAPIFetcher =
  last_fetch_time :: real
  cache_data :: json

definition AviationAPIFetcher_init :: AviationAPIFetcher where
  "AviationAPIFetcher_init = \<lparr>last_fetch_time = 0, cache_data = JList []\<rparr>"

text \<open>
  What \<^verbatim>\<open>requests.get\<close> does when it is called: it raises (no connection, timeout), or it
  returns a response with a status code and a body; the body is \<open>None\<close> when
  \<^verbatim>\<open>response.json()\<close> raises on it.
\<close>

datatype response = RequestException | Response int "json option"

text \<open>\<^verbatim>\<open>data.get('states', [])\<close>: only a dict has \<^verbatim>\<open>get\<close>.\<close>

definition get_states :: "json \<Rightarrow> error + json" where
  "get_states data =
     (case data of
        JDict kvs \<Rightarrow> (case map_of kvs ''states'' of Some v \<Rightarrow> Inr v | None \<Rightarrow> Inr (JList []))
      | _ \<Rightarrow> Inl AttributeError)"

text \<open>
  \<^verbatim>\<open>fetch_airplanes\<close>, with the clock reading of line 291 and the behaviour of the network as
  arguments. The third component of the result tells whether \<^verbatim>\<open>requests.get\<close> was called.
  Every exception inside the \<^verbatim>\<open>try\<close> block ends in \<^verbatim>\<open>return self.cache_data\<close>. On status 200
  with a dict body the cache and the time stamp are assigned before \<^verbatim>\<open>len(self.cache_data)\<close>
  is printed; if that raises (the states are not sized), the handler returns the cache just
  assigned, so both paths give the same result.
\<close>

definition fetch_airplanes ::
  "AviationAPIFetcher \<Rightarrow> real \<Rightarrow> response \<Rightarrow> json \<times> AviationAPIFetcher \<times> bool" where
  "fetch_airplanes f current_time resp =
     (if current_time - last_fetch_time f < API_UPDATE_INTERVAL then (cache_data f, f, False)
      else
        (case resp of
           RequestException \<Rightarrow> (cache_data f, f, True)
         | Response status_code body \<Rightarrow>
             if status_code = 200 then
               (case body of
                  None \<Rightarrow> (cache_data f, f, True)
                | Some data \<Rightarrow>
                    (case get_states data of
                       Inl e \<Rightarrow> (cache_data f, f, True)
                     | Inr states \<Rightarrow>
                         (states, f\<lparr>cache_data := states, last_fetch_time := current_time\<rparr>, True)))
             else (cache_data f, f, True)))"

text \<open>The dictionary \<^verbatim>\<open>parse_airplane_data\<close> returns.\<close>

record airplane_data =
  d_icao24 :: json
  d_callsign :: json
  d_country :: json
  d_longitude :: real
  d_latitude :: real
  d_altitude :: json
  d_velocity :: json
  d_heading :: json

text \<open>
  \<^verbatim>\<open>parse_airplane_data\<close>. The whole body is inside \<^verbatim>\<open>try ... except Exception: return None\<close>,
  so each raise is a \<open>None\<close>:
  \<^item> a state vector that is not a list: subscripting raises (\<^verbatim>\<open>TypeError\<close> for null, a number
    or a boolean, \<^verbatim>\<open>KeyError\<close> for a dict, whose keys are strings, and a string gives
    \<^verbatim>\<open>IndexError\<close> or a one-character string that the comparison with a float rejects);
  \<^item> a list too short for an index read: \<^verbatim>\<open>IndexError\<close>;
  \<^item> a latitude or longitude that is not a number: \<^verbatim>\<open>TypeError\<close> in the comparison.
\<close>

definition parse_airplane_data :: "json \<Rightarrow> airplane_data option" where
  "parse_airplane_data state_vector =
     (case state_vector of
        JList xs \<Rightarrow>
          if length xs \<le> 5 then None
          else if xs ! 5 = JNull then None
          else if length xs \<le> 6 then None
          else if xs ! 6 = JNull then None
          else
            (case py_number (xs ! 6) of
               None \<Rightarrow> None
             | Some lat \<Rightarrow>
                 if \<not> (ASIA_MIN_LAT \<le> lat \<and> lat \<le> ASIA_MAX_LAT) then None
                 else
                   (case py_number (xs ! 5) of
                      None \<Rightarrow> None
                    | Some lon \<Rightarrow>
                        if \<not> (ASIA_MIN_LON \<le> lon \<and> lon \<le> ASIA_MAX_LON) then None
                        else if length xs \<le> 10 then None
                        else
                          Some \<lparr>d_icao24 = xs ! 0,
                                d_callsign = (if py_truthy (xs ! 1) then xs ! 1 else JStr ''N/A''),
                                d_country = xs ! 2,
                                d_longitude = lon,
                                d_latitude = lat,
                                d_altitude = xs ! 7,
                                d_velocity = xs ! 9,
                                d_heading = xs ! 10\<rparr>))
      | _ \<Rightarrow> None)"

section \<open>AirplaneTrackingApp\<close>

text \<open>
  Keys of the dictionary \<^verbatim>\<open>self.airplanes\<close>. A list or a dict is not hashable
  (\<^verbatim>\<open>TypeError\<close>); \<^verbatim>\<open>True\<close>, \<^verbatim>\<open>1\<close> and \<^verbatim>\<open>1.0\<close> are equal and hash alike, so they are one
  key. Equality of two hashable feed values in Python is equality of their keys here.
\<close>

datatype dict_key = KNone | KNum real | KStr string

fun py_hash_key :: "json \<Rightarrow> dict_key option" where
  "py_hash_key JNull = Some KNone"
| "py_hash_key (JBool b) = Some (KNum (if b then 1 else 0))"
| "py_hash_key (JInt i) = Some (KNum (of_int i))"
| "py_hash_key (JFloat r) = Some (KNum r)"
| "py_hash_key (JStr s) = Some (KStr s)"
| "py_hash_key (JList xs) = None"
| "py_hash_key (JDict kvs) = None"

text \<open>\<^verbatim>\<open>for state_vector in raw_data\<close>: what iterating over the cached value yields.\<close>

fun py_iter :: "json \<Rightarrow> error + json list" where
  "py_iter (JList xs) = Inr xs"
| "py_iter (JStr s) = Inr (map (\<lambda>c. JStr [c]) s)"
| "py_iter (JDict kvs) = Inr (map (\<lambda>kv. JStr (fst kv)) kvs)"
| "py_iter _ = Inl TypeError"

text \<open>
  The state of the application that the update step reads and writes. The dictionary keeps
  insertion order, so it is an association list with distinct keys. The window, the fonts,
  the sprite, the pointer and the zoom of the user interface are left out.
\<close>

record AirplaneTrackingApp =
  airplanes :: "(dict_key \<times> Airplane) list"
  api_fetcher :: AviationAPIFetcher
  last_api_update :: real

definition AirplaneTrackingApp_init :: AirplaneTrackingApp where
  "AirplaneTrackingApp_init =
     \<lparr>airplanes = [], api_fetcher = AviationAPIFetcher_init, last_api_update = 0\<rparr>"

text \<open>
  The body of the \<^verbatim>\<open>for\<close> loop of \<^verbatim>\<open>update_airplanes\<close> (lines 455-482) for one state
  vector, on the dictionary and \<^verbatim>\<open>current_icao_list\<close>. The key is appended to the list
  before the dictionary is asked for it; the membership test raises on an unhashable key,
  and the constructor can raise on the call sign.
\<close>

definition update_one ::
  "(dict_key \<times> Airplane) list \<times> dict_key list \<Rightarrow> json
     \<Rightarrow> error + ((dict_key \<times> Airplane) list \<times> dict_key list)" where
  "update_one st state_vector =
     (case st of (aps, cur) \<Rightarrow>
        (case parse_airplane_data state_vector of
           None \<Rightarrow> Inr (aps, cur)
         | Some d \<Rightarrow>
             (case py_hash_key (d_icao24 d) of
                None \<Rightarrow> Inl TypeError
              | Some icao \<Rightarrow>
                  (case map_of aps icao of
                     Some a \<Rightarrow>
                       Inr (AList.update icao
                              (update_target a (d_latitude d) (d_longitude d)
                                 (d_heading d) (d_altitude d) (d_velocity d)) aps,
                            cur @ [icao])
                   | None \<Rightarrow>
                       (case Airplane_init (d_icao24 d) (d_callsign d) (d_latitude d)
                               (d_longitude d) (d_heading d) (d_altitude d) (d_velocity d) of
                          Inl e \<Rightarrow> Inl e
                        | Inr a \<Rightarrow> Inr (aps @ [(icao, a)], cur @ [icao]))))))"

text \<open>The loop itself: an exception leaves the loop and the method.\<close>

fun update_loop ::
  "(dict_key \<times> Airplane) list \<times> dict_key list \<Rightarrow> json list
     \<Rightarrow> error + ((dict_key \<times> Airplane) list \<times> dict_key list)" where
  "update_loop st [] = Inr st"
| "update_loop st (state_vector # rest) =
     (case update_one st state_vector of
        Inl e \<Rightarrow> Inl e
      | Inr st' \<Rightarrow> update_loop st' rest)"

text \<open>
  Lines 484-490: the keys to remove are collected, then deleted one by one. The list
  comprehension calls \<^verbatim>\<open>time.time()\<close> once for every key that is not in
  \<^verbatim>\<open>current_icao_list\<close>, so each such key has a clock reading of its own: \<open>now icao\<close> is
  the reading taken when \<open>icao\<close> is examined.
\<close>

definition remove_untracked ::
  "(dict_key \<times> Airplane) list \<Rightarrow> dict_key list \<Rightarrow> (dict_key \<Rightarrow> real) \<Rightarrow> real
     \<Rightarrow> (dict_key \<times> Airplane) list" where
  "remove_untracked aps cur now last_update =
     (let icao_to_remove =
            filter (\<lambda>icao. icao \<notin> set cur \<and> now icao - last_update > 60) (map fst aps)
      in foldl (\<lambda>al icao. AList.delete icao al) aps icao_to_remove)"

text \<open>The body of \<^verbatim>\<open>update_airplanes\<close> once \<^verbatim>\<open>raw_data\<close> is there (lines 452-490).\<close>

definition update_airplanes_with ::
  "AirplaneTrackingApp \<Rightarrow> json \<Rightarrow> (dict_key \<Rightarrow> real) \<Rightarrow> error + AirplaneTrackingApp" where
  "update_airplanes_with app raw_data now =
     (case py_iter raw_data of
        Inl e \<Rightarrow> Inl e
      | Inr state_vectors \<Rightarrow>
          (case update_loop (airplanes app, []) state_vectors of
             Inl e \<Rightarrow> Inl e
           | Inr (aps, cur) \<Rightarrow>
               Inr (app\<lparr>airplanes := remove_untracked aps cur now (last_api_update app)\<rparr>)))"

text \<open>
  \<^verbatim>\<open>update_airplanes\<close>: \<open>t_fetch\<close> is the clock when the fetcher reads it, \<open>resp\<close> what the
  network does if asked, \<open>t_remove\<close> the clock readings when stale airplanes are looked for
  (one for each key examined). The flag
  tells whether the feed was asked. The fetcher keeps its new state also when the rest
  raises, but then the exception ends \<^verbatim>\<open>run\<close>, which has no handler.
\<close>

definition update_airplanes ::
  "AirplaneTrackingApp \<Rightarrow> real \<Rightarrow> response \<Rightarrow> (dict_key \<Rightarrow> real)
     \<Rightarrow> error + (AirplaneTrackingApp \<times> bool)" where
  "update_airplanes app t_fetch resp t_remove =
     (case fetch_airplanes (api_fetcher app) t_fetch resp of
        (raw_data, f, requested) \<Rightarrow>
          (case update_airplanes_with (app\<lparr>api_fetcher := f\<rparr>) raw_data t_remove of
             Inl e \<Rightarrow> Inl e
           | Inr app' \<Rightarrow> Inr (app', requested)))"

text \<open>
  \<^verbatim>\<open>run\<close>, lines 693-694: the first update, then the clock is read into \<^verbatim>\<open>last_api_update\<close>.
\<close>

definition run_start ::
  "AirplaneTrackingApp \<Rightarrow> real \<Rightarrow> response \<Rightarrow> (dict_key \<Rightarrow> real) \<Rightarrow> real
     \<Rightarrow> error + (AirplaneTrackingApp \<times> bool)" where
  "run_start app t_fetch resp t_remove t_after =
     (case update_airplanes app t_fetch resp t_remove of
        Inl e \<Rightarrow> Inl e
      | Inr (app', requested) \<Rightarrow> Inr (app'\<lparr>last_api_update := t_after\<rparr>, requested))"

text \<open>
  One pass of the loop of \<^verbatim>\<open>run\<close>, step 2 (lines 705-712): every airplane is interpolated,
  then the feed is consulted if the interval has passed since \<^verbatim>\<open>last_api_update\<close>.
  \<open>current_time\<close> is the clock at line 709. Event handling and drawing do not touch this
  state. Line 712 records \<open>current_time\<close> only after \<^verbatim>\<open>update_airplanes\<close> has returned: when
  it raises, nothing is recorded and \<^verbatim>\<open>run\<close> ends.
\<close>

definition tick ::
  "AirplaneTrackingApp \<Rightarrow> real \<Rightarrow> real \<Rightarrow> response \<Rightarrow> (dict_key \<Rightarrow> real)
     \<Rightarrow> error + (AirplaneTrackingApp \<times> bool)" where
  "tick app current_time t_fetch resp t_remove =
     (let app1 = app\<lparr>airplanes := map (\<lambda>(icao, a). (icao, interpolate a)) (airplanes app)\<rparr>
      in if current_time - last_api_update app1 \<ge> API_UPDATE_INTERVAL then
           (case update_airplanes app1 t_fetch resp t_remove of
              Inl e \<Rightarrow> Inl e
            | Inr (app2, requested) \<Rightarrow> Inr (app2\<lparr>last_api_update := current_time\<rparr>, requested))
         else Inr (app1, False))"

text \<open>
  A run of passes; each input is (clock at line 709, clock in the fetcher, network, clock
  readings at removal). The second component of the result lists the \<open>current_time\<close> of every pass
  that asked the feed, oldest first.
\<close>

fun run_loop ::
  "AirplaneTrackingApp \<Rightarrow> (real \<times> real \<times> response \<times> (dict_key \<Rightarrow> real)) list
     \<Rightarrow> error + (AirplaneTrackingApp \<times> real list)" where
  "run_loop app [] = Inr (app, [])"
| "run_loop app ((current_time, t_fetch, resp, t_remove) # rest) =
     (case tick app current_time t_fetch resp t_remove of
        Inl e \<Rightarrow> Inl e
      | Inr (app', requested) \<Rightarrow>
          (case run_loop app' rest of
             Inl e \<Rightarrow> Inl e
           | Inr (app'', asked) \<Rightarrow>
               Inr (app'', (if requested then [current_time] else []) @ asked)))"

section \<open>Notions used to state the properties\<close>

text \<open>
  The dictionary key under which the update loop files a state vector: none if the parser
  rejects the vector (or if its identifier is not hashable, in which case the loop raises).
\<close>

definition record_key :: "json \<Rightarrow> dict_key option" where
  "record_key sv =
     (case parse_airplane_data sv of None \<Rightarrow> None | Some d \<Rightarrow> py_hash_key (d_icao24 d))"

text \<open>The keys present in a snapshot, in order: what \<^verbatim>\<open>current_icao_list\<close> ends up holding.\<close>

definition snapshot_keys :: "json list \<Rightarrow> dict_key list" where
  "snapshot_keys svs = List.map_filter record_key svs"

text \<open>The position that the last state vector filed under a key carries.\<close>

fun last_target :: "dict_key \<Rightarrow> json list \<Rightarrow> (real \<times> real) option" where
  "last_target k [] = None"
| "last_target k (sv # rest) =
     (case last_target k rest of
        Some p \<Rightarrow> Some p
      | None \<Rightarrow>
          (if record_key sv = Some k
           then map_option (\<lambda>d. (d_latitude d, d_longitude d)) (parse_airplane_data sv)
           else None))"

text \<open>Successive entries of a list of times are at least \<open>d\<close> apart.\<close>

fun spaced :: "real \<Rightarrow> real list \<Rightarrow> bool" where
  "spaced d [] = True"
| "spaced d [x] = True"
| "spaced d (x # y # ys) = (d \<le> y - x \<and> spaced d (y # ys))"

subsection \<open>Sample inputs\<close>

text \<open>An answer of the feed with status 200 that carries the given state vectors.\<close>

definition feed :: "json list \<Rightarrow> response" where
  "feed state_vectors =
     Response 200 (Some (JDict [(''time'', JInt 1700000000), (''states'', JList state_vectors)]))"

text \<open>A state vector in the format of the feed (17 entries), over Japan.\<close>

definition sample_vector :: json where
  "sample_vector =
     JList [JStr ''86d624'', JStr ''JAL123  '', JStr ''Japan'', JInt 1700000000, JInt 1700000000,
            JFloat 140, JFloat 35, JFloat 10000, JBool False, JFloat 230,
            JFloat 90, JNull, JNull, JFloat 10300, JNull, JBool False, JInt 0]"

text \<open>The same airplane one degree further north and east.\<close>

definition moved_vector :: json where
  "moved_vector =
     JList [JStr ''86d624'', JStr ''JAL123  '', JStr ''Japan'', JInt 1700000010, JInt 1700000010,
            JFloat 141, JFloat 36, JFloat 10000, JBool False, JFloat 230,
            JFloat 90, JNull, JNull, JFloat 10300, JNull, JBool False, JInt 0]"

text \<open>The airplane the constructor builds from \<open>sample_vector\<close>.\<close>

definition sample_airplane :: Airplane where
  "sample_airplane =
     \<lparr>icao24 = JStr ''86d624'', callsign = ''JAL123'',
      target_lat = 35, target_lon = 140,
      display_lat = 35, display_lon = 140,
      heading = JFloat 90, altitude = JFloat 10000, velocity = JFloat 230,
      interp_step = 0, prev_lat = 35, prev_lon = 140,
      trail = [(35, 140)], max_trail_length = 20, color = (60, 220, 210)\<rparr>"

text \<open>
  The application after \<^verbatim>\<open>run\<close> has made its first update at time 1000 and the feed answered
  with \<open>sample_vector\<close>; and after the next pass, at time 1010, got an empty snapshot.
\<close>

definition sample_app :: AirplaneTrackingApp where
  "sample_app =
     \<lparr>airplanes = [(KStr ''86d624'', sample_airplane)],
      api_fetcher = \<lparr>last_fetch_time = 1000, cache_data = JList [sample_vector]\<rparr>,
      last_api_update = 1000\<rparr>"

definition idle_app :: AirplaneTrackingApp where
  "idle_app =
     \<lparr>airplanes = [(KStr ''86d624'', sample_airplane\<lparr>interp_step := 1\<rparr>)],
      api_fetcher = \<lparr>last_fetch_time = 1010, cache_data = JList []\<rparr>,
      last_api_update = 1010\<rparr>"

text \<open>
  The part of the state invariant of an airplane that every call keeps: the step counter
  stays in range and the trail within its bound.
\<close>

definition airplane_ok :: "Airplane \<Rightarrow> bool" where
  "airplane_ok a =
     (0 \<le> interp_step a \<and> interp_step a \<le> INTERPOLATION_STEPS \<and>
      length (trail a) \<le> max_trail_length a \<and> max_trail_length a = 20)"

section \<open>Properties of the airplane state\<close>

lemma interpolate_below:
  "interp_step a < 30 \<Longrightarrow>
   interpolate a =
     a\<lparr>display_lat := linear_interpolation (prev_lat a) (target_lat a) (of_int (interp_step a) / 30),
       display_lon := linear_interpolation (prev_lon a) (target_lon a) (of_int (interp_step a) / 30),
       interp_step := interp_step a + 1\<rparr>"
  by (simp add: interpolate_def INTERPOLATION_STEPS_def Let_def)

lemma interpolate_done:
  "30 \<le> interp_step a \<Longrightarrow>
   interpolate a = a\<lparr>display_lat := target_lat a, display_lon := target_lon a\<rparr>"
  by (simp add: interpolate_def INTERPOLATION_STEPS_def)

text \<open>
  After \<open>n + 1\<close> calls from step 0 the display position is the interpolation at
  \<open>n / 30\<close>: the factor is computed from the counter before it is incremented.
\<close>

lemma interpolate_funpow:
  "interp_step a = 0 \<Longrightarrow> n < 30 \<Longrightarrow>
   (interpolate ^^ Suc n) a =
     a\<lparr>display_lat := linear_interpolation (prev_lat a) (target_lat a) (of_nat n / 30),
       display_lon := linear_interpolation (prev_lon a) (target_lon a) (of_nat n / 30),
       interp_step := int n + 1\<rparr>"
proof (induction n)
  case 0
  then show ?case by (simp add: interpolate_below)
next
  case (Suc n)
  let ?b = "a\<lparr>display_lat := linear_interpolation (prev_lat a) (target_lat a) (of_nat n / 30),
              display_lon := linear_interpolation (prev_lon a) (target_lon a) (of_nat n / 30),
              interp_step := int n + 1\<rparr>"
  from Suc have IH: "(interpolate ^^ Suc n) a = ?b" by simp
  have "(interpolate ^^ Suc (Suc n)) a = interpolate ((interpolate ^^ Suc n) a)" by simp
  also have "\<dots> = interpolate ?b" by (simp only: IH)
  also have "\<dots> =
      a\<lparr>display_lat := linear_interpolation (prev_lat a) (target_lat a) (of_nat (Suc n) / 30),
        display_lon := linear_interpolation (prev_lon a) (target_lon a) (of_nat (Suc n) / 30),
        interp_step := int (Suc n) + 1\<rparr>"
    using Suc.prems by (subst interpolate_below) (simp_all add: add.commute)
  finally show ?case .
qed

lemma interpolate_30_after_update:
  "(interpolate ^^ 30) (update_target a lat lon h al v) =
     (update_target a lat lon h al v)
       \<lparr>display_lat := display_lat a + (lat - display_lat a) * (29 / 30),
        display_lon := display_lon a + (lon - display_lon a) * (29 / 30),
        interp_step := 30\<rparr>"
proof -
  let ?u = "update_target a lat lon h al v"
  have s: "interp_step ?u = 0" by (simp add: update_target_def Let_def)
  have f: "prev_lat ?u = display_lat a" "prev_lon ?u = display_lon a"
    "target_lat ?u = lat" "target_lon ?u = lon"
    by (simp_all add: update_target_def Let_def)
  have "(interpolate ^^ Suc 29) ?u =
      ?u\<lparr>display_lat := linear_interpolation (prev_lat ?u) (target_lat ?u) (of_nat 29 / 30),
         display_lon := linear_interpolation (prev_lon ?u) (target_lon ?u) (of_nat 29 / 30),
         interp_step := int 29 + 1\<rparr>"
    by (rule interpolate_funpow[OF s]) simp
  then show ?thesis by (simp add: f linear_interpolation_def)
qed

text \<open>The call after those thirty is the one that pins the display position.\<close>

lemma interpolate_31_after_update:
  "display_lat ((interpolate ^^ 31) (update_target a lat lon h al v)) = lat \<and>
   display_lon ((interpolate ^^ 31) (update_target a lat lon h al v)) = lon"
proof -
  let ?u = "update_target a lat lon h al v"
  let ?w = "(interpolate ^^ 30) ?u"
  have t: "target_lat ?u = lat" "target_lon ?u = lon"
    by (simp_all add: update_target_def Let_def)
  have w: "interp_step ?w = 30" "target_lat ?w = lat" "target_lon ?w = lon"
    by (simp_all add: interpolate_30_after_update t)
  have "(interpolate ^^ Suc 30) ?u = interpolate ?w"
    by (simp only: funpow.simps o_apply)
  moreover have "Suc 30 = 31" by simp
  ultimately have "(interpolate ^^ 31) ?u = interpolate ?w" by simp
  moreover have "interpolate ?w = ?w\<lparr>display_lat := target_lat ?w, display_lon := target_lon ?w\<rparr>"
    by (rule interpolate_done) (simp add: w)
  ultimately show ?thesis by (simp add: w)
qed

lemma apply_calls_Cons: "apply_calls a (c # cs) = apply_calls (apply_call a c) cs"
  by (simp add: apply_calls_def)

lemma apply_calls_interpolates:
  "apply_calls a (replicate n Interpolate) = (interpolate ^^ n) a"
  unfolding apply_calls_def
  by (induction n arbitrary: a) (simp_all add: funpow_swap1)

lemma sample_init:
  "Airplane_init (JStr ''abc'') (JStr ''AIC101'') lat lon JNull JNull JNull =
     Inr \<lparr>icao24 = JStr ''abc'', callsign = ''AIC101'', target_lat = lat, target_lon = lon,
          display_lat = lat, display_lon = lon, heading = JInt 0, altitude = JInt 0,
          velocity = JInt 0, interp_step = 0, prev_lat = lat, prev_lon = lon,
          trail = [(lat, lon)], max_trail_length = 20, color = (190, 110, 240)\<rparr>"
  by (simp add: Airplane_init_def init_callsign_def assign_color_by_callsign_def Let_def
      py_strip_def py_isspace_def)

text \<open>
  Claim C1. After \<^verbatim>\<open>update_target\<close> and exactly \<^verbatim>\<open>INTERPOLATION_STEPS\<close> = 30 calls of
  \<^verbatim>\<open>interpolate\<close> the display position should equal the target. The code evaluated on an
  airplane created at (0, 0) and sent to (30, 60): after the thirty calls the display
  position is (29, 58), the interpolation at 29/30, and the target is (30, 60).
\<close>

theorem interpolate_30_calls_short_of_target:
  "case Airplane_init (JStr ''abc'') (JStr ''AIC101'') 0 0 JNull JNull JNull of
     Inl e \<Rightarrow> False
   | Inr a0 \<Rightarrow>
       display_lat ((interpolate ^^ 30) (update_target a0 30 60 JNull JNull JNull)) = 29 \<and>
       display_lon ((interpolate ^^ 30) (update_target a0 30 60 JNull JNull JNull)) = 58 \<and>
       target_lat ((interpolate ^^ 30) (update_target a0 30 60 JNull JNull JNull)) = 30 \<and>
       target_lon ((interpolate ^^ 30) (update_target a0 30 60 JNull JNull JNull)) = 60"
  apply (simp only: sample_init sum.case interpolate_30_after_update)
  apply (simp add: update_target_def Let_def)
  done

text \<open>
  Claim C7. The invariant should hold after every sequence of calls; its third part says
  that the display position equals the target whenever the step counter equals
  \<^verbatim>\<open>INTERPOLATION_STEPS\<close>. The code evaluated on an airplane created at (10, 100), after one
  \<^verbatim>\<open>update_target\<close> to (40, 130) and thirty \<^verbatim>\<open>interpolate\<close> calls: the counter is 30, the
  display position (39, 129), the target (40, 130).
\<close>

theorem step_limit_reached_before_target:
  "case Airplane_init (JStr ''abc'') (JStr ''AIC101'') 10 100 JNull JNull JNull of
     Inl e \<Rightarrow> False
   | Inr a0 \<Rightarrow>
       (let a = apply_calls a0 (UpdateTarget 40 130 JNull JNull JNull # replicate 30 Interpolate)
        in interp_step a = INTERPOLATION_STEPS \<and>
           (display_lat a, display_lon a) = (39, 129) \<and>
           (target_lat a, target_lon a) = (40, 130))"
  apply (simp only: sample_init sum.case apply_calls_Cons apply_call.simps
      apply_calls_interpolates interpolate_30_after_update Let_def)
  apply (simp add: update_target_def Let_def INTERPOLATION_STEPS_def)
  done

text \<open>
  The other two parts of that invariant hold: the counter stays in range and the trail
  within its bound (\<open>airplane_ok\<close>), and a full trail loses its oldest entry, the first
  one, when a position is appended.
\<close>

lemma update_target_fifo:
  assumes "length (trail a) \<le> max_trail_length a" "0 < max_trail_length a"
  shows "trail (update_target a lat lon hdg alt vel) =
           (if length (trail a) = max_trail_length a then tl (trail a) else trail a) @ [(lat, lon)]"
proof (cases "length (trail a) = max_trail_length a")
  case True
  with assms(2) have "trail a \<noteq> []" by auto
  with True show ?thesis by (simp add: update_target_def Let_def)
next
  case False
  with assms(1) show ?thesis by (simp add: update_target_def Let_def)
qed

lemma airplane_ok_init:
  "Airplane_init icao cs lat lon hdg alt vel = Inr a \<Longrightarrow> airplane_ok a"
  by (auto simp add: Airplane_init_def assign_color_by_callsign_def Let_def airplane_ok_def
      INTERPOLATION_STEPS_def split: sum.splits)

lemma airplane_ok_update_target:
  "airplane_ok a \<Longrightarrow> airplane_ok (update_target a lat lon hdg alt vel)"
  by (auto simp add: update_target_def Let_def airplane_ok_def INTERPOLATION_STEPS_def)

lemma airplane_ok_interpolate: "airplane_ok a \<Longrightarrow> airplane_ok (interpolate a)"
  by (auto simp add: interpolate_def Let_def airplane_ok_def INTERPOLATION_STEPS_def)

lemma airplane_ok_apply_calls: "airplane_ok a \<Longrightarrow> airplane_ok (apply_calls a cs)"
proof (induction cs arbitrary: a)
  case Nil
  then show ?case by (simp add: apply_calls_def)
next
  case (Cons c cs)
  have "airplane_ok (apply_call a c)"
    using Cons.prems by (cases c) (simp_all add: airplane_ok_update_target airplane_ok_interpolate)
  then show ?case by (simp add: apply_calls_Cons Cons.IH)
qed

text \<open>
  Claim C8. \<^verbatim>\<open>update_target\<close>: the display position becomes the previous position, the
  new coordinates become the target, heading, altitude and velocity are replaced only by a
  value that is not \<^verbatim>\<open>None\<close>, the step counter is reset to 0, and the new position is
  appended to the trail, whose oldest entry is dropped if the trail is then longer than its
  bound. Nothing else changes.
\<close>

theorem update_target_effect:
  "update_target a lat lon hdg alt vel =
     a\<lparr>prev_lat := display_lat a, prev_lon := display_lon a,
       target_lat := lat, target_lon := lon,
       heading := (if hdg = JNull then heading a else hdg),
       altitude := (if alt = JNull then altitude a else alt),
       velocity := (if vel = JNull then velocity a else vel),
       interp_step := 0,
       trail := (if length (trail a) + 1 > max_trail_length a
                 then tl (trail a @ [(lat, lon)]) else trail a @ [(lat, lon)])\<rparr>"
  by (simp add: update_target_def Let_def)



section \<open>Properties of the coordinate transform\<close>

lemmas geo_consts =
  ASIA_MIN_LAT_def ASIA_MAX_LAT_def ASIA_MIN_LON_def ASIA_MAX_LON_def
  SCREEN_WIDTH_def SCREEN_HEIGHT_def

text \<open>
  Claim C3, as stated: Tokyo (35.68, 139.76) maps to about x = 924, y = 311. On the code the
  point lies 139 pixels to the right of x = 924 and 74 pixels above y = 311.
\<close>

theorem tokyo_not_at_924_311:
  "geo_to_screen asia_transformer (3568 / 100) (13976 / 100) = Inr (924 + 139, 311 - 74)"
  by (simp add: geo_to_screen_def asia_transformer_def py_int_def geo_consts Let_def)

text \<open>
  Claim C3, amended: with bounds lat [-10, 55] and lon [60, 150], viewport 1200 x 800, zoom 1
  and pan (0, 0), \<^verbatim>\<open>geo_to_screen\<close> maps lat 35.68, lon 139.76 to x = 1063, y = 237.
\<close>

theorem tokyo_on_screen:
  "geo_to_screen
     \<lparr>min_lat = -10, max_lat = 55, min_lon = 60, max_lon = 150,
      screen_width = 1200, screen_height = 800, zoom = 1, pan_x = 0, pan_y = 0\<rparr>
     (3568 / 100) (13976 / 100) = Inr (1063, 237)"
  by (simp add: geo_to_screen_def py_int_def Let_def)

text \<open>
  Claim C4, as stated: constructing the transformer with degenerate bounds fails. On the
  code the constructor returns the transformer, here with \<open>max_lat = min_lat\<close>.
\<close>

theorem degenerate_bounds_constructed:
  "CoordinateTransformer_init 10 10 60 150 1200 800 1 0 0 =
     Inr \<lparr>min_lat = 10, max_lat = 10, min_lon = 60, max_lon = 150,
          screen_width = 1200, screen_height = 800, zoom = 1, pan_x = 0, pan_y = 0\<rparr>"
  by (simp add: CoordinateTransformer_init_def)

text \<open>
  Claim C4, amended: the constructor accepts degenerate bounds without an error; every
  later call of \<^verbatim>\<open>geo_to_screen\<close> on that transformer raises \<^verbatim>\<open>ZeroDivisionError\<close>, so no
  coordinates are produced from it.
\<close>

theorem degenerate_bounds_raise_on_use:
  assumes "mxlat = mnlat \<or> mxlon = mnlon"
  shows "\<exists>tr. CoordinateTransformer_init mnlat mxlat mnlon mxlon w h z px py = Inr tr \<and>
           (\<forall>lat lon. geo_to_screen tr lat lon = Inl ZeroDivisionError)"
  using assms by (auto simp add: CoordinateTransformer_init_def geo_to_screen_def)

theorem degenerate_bounds_raise_on_use_witness:
  "\<exists>tr. CoordinateTransformer_init (-10) 55 60 60 1200 800 1 0 0 = Inr tr \<and>
         (\<forall>lat lon. geo_to_screen tr lat lon = Inl ZeroDivisionError)"
proof -
  have h: "(55::real) = -10 \<or> (60::real) = 60" by simp
  show ?thesis by (rule degenerate_bounds_raise_on_use [OF h])
qed

section \<open>Properties of the update loop\<close>

subsection \<open>Removal of untracked airplanes\<close>

lemma foldl_delete_filter:
  "foldl (\<lambda>al k. AList.delete k al) aps ks = filter (\<lambda>p. fst p \<notin> set ks) aps"
proof (induction ks arbitrary: aps)
  case Nil
  then show ?case by simp
next
  case (Cons k ks)
  have "AList.delete k aps = filter (\<lambda>p. fst p \<noteq> k) aps"
    by (auto simp add: AList.delete_eq intro!: filter_cong)
  then show ?case by (simp add: Cons.IH conj_commute)
qed

lemma remove_untracked_eq:
  "remove_untracked aps cur now lu =
     filter (\<lambda>p. \<not> (fst p \<notin> set cur \<and> now (fst p) - lu > 60)) aps"
proof -
  have "filter (\<lambda>p. fst p \<notin>
            set (filter (\<lambda>k. k \<notin> set cur \<and> now k - lu > 60) (map fst aps))) aps
        = filter (\<lambda>p. \<not> (fst p \<notin> set cur \<and> now (fst p) - lu > 60)) aps"
    by (rule filter_cong) auto
  then show ?thesis
    by (simp add: remove_untracked_def foldl_delete_filter)
qed

text \<open>Each key is judged at its own clock reading: here only the second one is removed.\<close>

lemma remove_untracked_per_key:
  "remove_untracked [(KStr ''a'', x), (KStr ''b'', y)] []
     (\<lambda>k. if k = KStr ''a'' then 1059 else 1061) 1000 = [(KStr ''a'', x)]"
  by (simp add: remove_untracked_def)

subsection \<open>One state vector\<close>

lemma update_one_skip: "parse_airplane_data sv = None \<Longrightarrow> update_one st sv = Inr st"
  by (cases st) (simp add: update_one_def)

lemma update_one_cur:
  "update_one (aps, cur) sv = Inr (aps', cur') \<Longrightarrow>
     cur' = cur @ (case record_key sv of None \<Rightarrow> [] | Some k \<Rightarrow> [k])"
  by (auto simp add: update_one_def record_key_def split: option.splits sum.splits)

lemma update_one_hashable:
  "update_one (aps, cur) sv = Inr r \<Longrightarrow> parse_airplane_data sv \<noteq> None \<Longrightarrow> record_key sv \<noteq> None"
  by (auto simp add: update_one_def record_key_def split: option.splits sum.splits)

lemma update_existing_keys:
  "map_of aps k = Some a \<Longrightarrow> map fst (AList.update k v aps) = map fst aps"
proof -
  assume "map_of aps k = Some a"
  then have "k \<in> fst ` set aps" by (metis map_of_eq_None_iff option.distinct(1))
  then show ?thesis by (simp add: update_keys)
qed

lemma update_one_keys:
  "update_one (aps, cur) sv = Inr (aps', cur') \<Longrightarrow>
     map fst aps' =
       (case record_key sv of
          None \<Rightarrow> map fst aps
        | Some k \<Rightarrow> if map_of aps k = None then map fst aps @ [k] else map fst aps)"
  by (auto simp add: update_one_def record_key_def update_existing_keys
      split: option.splits sum.splits)

lemma update_one_other:
  "update_one (aps, cur) sv = Inr (aps', cur') \<Longrightarrow> record_key sv \<noteq> Some k \<Longrightarrow>
     map_of aps' k = map_of aps k"
  by (auto simp add: update_one_def record_key_def update_conv' map_add_def
      split: option.splits sum.splits)

lemma update_one_display:
  "update_one (aps, cur) sv = Inr (aps', cur') \<Longrightarrow> map_of aps k = Some a \<Longrightarrow>
     \<exists>a'. map_of aps' k = Some a' \<and> display_lat a' = display_lat a \<and> display_lon a' = display_lon a"
  by (auto simp add: update_one_def record_key_def update_conv' map_add_def update_target_def Let_def
      split: option.splits sum.splits)

lemma update_one_target:
  "update_one (aps, cur) sv = Inr (aps', cur') \<Longrightarrow> record_key sv = Some k \<Longrightarrow>
     \<exists>a' d. parse_airplane_data sv = Some d \<and> map_of aps' k = Some a' \<and>
        target_lat a' = d_latitude d \<and> target_lon a' = d_longitude d"
  by (auto simp add: update_one_def record_key_def update_conv' map_add_def update_target_def Let_def
        Airplane_init_def assign_color_by_callsign_def
      split: option.splits sum.splits)

lemma update_one_known:
  "record_key sv = Some k \<Longrightarrow> map_of aps k \<noteq> None \<Longrightarrow> \<exists>r. update_one (aps, cur) sv = Inr r"
  by (auto simp add: update_one_def record_key_def split: option.splits sum.splits)

subsection \<open>A whole snapshot\<close>

lemma snapshot_keys_Cons:
  "snapshot_keys (sv # svs) = (case record_key sv of None \<Rightarrow> [] | Some k \<Rightarrow> [k]) @ snapshot_keys svs"
  by (simp add: snapshot_keys_def map_filter_simps split: option.splits)

lemma snapshot_keys_Nil: "snapshot_keys [] = []"
  by (simp add: snapshot_keys_def map_filter_simps)

lemma in_snapshot_keys: "k \<in> set (snapshot_keys svs) \<longleftrightarrow> (\<exists>sv \<in> set svs. record_key sv = Some k)"
  by (induction svs) (auto simp add: snapshot_keys_Cons snapshot_keys_Nil split: option.splits)

lemma update_loop_Cons:
  "update_loop (aps, cur) (sv # svs) = Inr r \<Longrightarrow>
     \<exists>aps1 cur1. update_one (aps, cur) sv = Inr (aps1, cur1) \<and> update_loop (aps1, cur1) svs = Inr r"
  by (auto split: sum.splits)

lemma update_loop_cur:
  "update_loop (aps, cur) svs = Inr (aps', cur') \<Longrightarrow> cur' = cur @ snapshot_keys svs"
proof (induction svs arbitrary: aps cur)
  case Nil
  then show ?case by (simp add: snapshot_keys_Nil)
next
  case (Cons sv svs)
  from update_loop_Cons[OF Cons.prems] obtain aps1 cur1 where
    s: "update_one (aps, cur) sv = Inr (aps1, cur1)" and r: "update_loop (aps1, cur1) svs = Inr (aps', cur')"
    by blast
  from Cons.IH[OF r] update_one_cur[OF s] show ?case
    by (simp add: snapshot_keys_Cons)
qed

lemma update_loop_hashable:
  "update_loop (aps, cur) svs = Inr r \<Longrightarrow> sv \<in> set svs \<Longrightarrow>
     parse_airplane_data sv \<noteq> None \<Longrightarrow> record_key sv \<noteq> None"
proof (induction svs arbitrary: aps cur)
  case Nil
  then show ?case by simp
next
  case (Cons x svs)
  from update_loop_Cons[OF Cons.prems(1)] obtain aps1 cur1 where
    s: "update_one (aps, cur) x = Inr (aps1, cur1)" and r: "update_loop (aps1, cur1) svs = Inr r"
    by blast
  show ?case
  proof (cases "sv = x")
    case True
    with update_one_hashable[OF s] Cons.prems(3) show ?thesis by simp
  next
    case False
    with Cons.prems(2) have "sv \<in> set svs" by simp
    from Cons.IH[OF r this Cons.prems(3)] show ?thesis .
  qed
qed

lemma update_loop_other:
  "update_loop (aps, cur) svs = Inr (aps', cur') \<Longrightarrow> k \<notin> set (snapshot_keys svs) \<Longrightarrow>
     map_of aps' k = map_of aps k"
proof (induction svs arbitrary: aps cur)
  case Nil
  then show ?case by simp
next
  case (Cons sv svs)
  from update_loop_Cons[OF Cons.prems(1)] obtain aps1 cur1 where
    s: "update_one (aps, cur) sv = Inr (aps1, cur1)" and r: "update_loop (aps1, cur1) svs = Inr (aps', cur')"
    by blast
  from Cons.prems(2) have n: "record_key sv \<noteq> Some k" "k \<notin> set (snapshot_keys svs)"
    by (auto simp add: snapshot_keys_Cons split: option.splits)
  from Cons.IH[OF r n(2)] update_one_other[OF s n(1)] show ?case by simp
qed

lemma update_loop_display:
  "update_loop (aps, cur) svs = Inr (aps', cur') \<Longrightarrow> map_of aps k = Some a \<Longrightarrow>
     \<exists>a'. map_of aps' k = Some a' \<and> display_lat a' = display_lat a \<and> display_lon a' = display_lon a"
proof (induction svs arbitrary: aps cur a)
  case Nil
  then show ?case by simp
next
  case (Cons sv svs)
  from update_loop_Cons[OF Cons.prems(1)] obtain aps1 cur1 where
    s: "update_one (aps, cur) sv = Inr (aps1, cur1)" and r: "update_loop (aps1, cur1) svs = Inr (aps', cur')"
    by blast
  from update_one_display[OF s Cons.prems(2)] obtain a1 where
    a1: "map_of aps1 k = Some a1" "display_lat a1 = display_lat a" "display_lon a1 = display_lon a"
    by blast
  from Cons.IH[OF r a1(1)] a1(2,3) show ?case by auto
qed

lemma last_target_None: "last_target k svs = None \<longleftrightarrow> k \<notin> set (snapshot_keys svs)"
  by (induction svs)
     (auto simp add: snapshot_keys_Cons snapshot_keys_Nil record_key_def split: option.splits)

lemma update_loop_target:
  "update_loop (aps, cur) svs = Inr (aps', cur') \<Longrightarrow> last_target k svs = Some p \<Longrightarrow>
     \<exists>a'. map_of aps' k = Some a' \<and> (target_lat a', target_lon a') = p"
proof (induction svs arbitrary: aps cur)
  case Nil
  then show ?case by simp
next
  case (Cons sv svs)
  from update_loop_Cons[OF Cons.prems(1)] obtain aps1 cur1 where
    s: "update_one (aps, cur) sv = Inr (aps1, cur1)" and r: "update_loop (aps1, cur1) svs = Inr (aps', cur')"
    by blast
  show ?case
  proof (cases "last_target k svs")
    case (Some q)
    with Cons.prems(2) have "q = p" by simp
    with Cons.IH[OF r] Some show ?thesis by simp
  next
    case None
    with Cons.prems(2) have rk: "record_key sv = Some k"
      and pd: "map_option (\<lambda>d. (d_latitude d, d_longitude d)) (parse_airplane_data sv) = Some p"
      by (auto split: if_splits)
    from update_one_target[OF s rk] pd obtain a1 where
      a1: "map_of aps1 k = Some a1" "(target_lat a1, target_lon a1) = p" by auto
    from None have "k \<notin> set (snapshot_keys svs)" by (simp add: last_target_None)
    from update_loop_other[OF r this] a1 show ?thesis by simp
  qed
qed

lemma update_one_keeps:
  "update_one (aps, cur) sv = Inr (aps1, cur1) \<Longrightarrow> map_of aps k \<noteq> None \<Longrightarrow> map_of aps1 k \<noteq> None"
  using update_one_display by fastforce

lemma update_loop_known:
  "(\<And>sv. sv \<in> set svs \<Longrightarrow> parse_airplane_data sv \<noteq> None \<Longrightarrow>
        \<exists>k. record_key sv = Some k \<and> map_of aps k \<noteq> None) \<Longrightarrow>
   \<exists>aps' cur'. update_loop (aps, cur) svs = Inr (aps', cur') \<and> map fst aps' = map fst aps"
proof (induction svs arbitrary: aps cur)
  case Nil
  then show ?case by simp
next
  case (Cons sv svs)
  have "\<exists>aps1 cur1. update_one (aps, cur) sv = Inr (aps1, cur1) \<and> map fst aps1 = map fst aps"
  proof (cases "parse_airplane_data sv")
    case None
    then show ?thesis by (simp add: update_one_skip)
  next
    case (Some d)
    with Cons.prems[of sv] obtain k where k: "record_key sv = Some k" "map_of aps k \<noteq> None" by auto
    from update_one_known[OF k] obtain aps1 cur1 where s: "update_one (aps, cur) sv = Inr (aps1, cur1)"
      by fastforce
    from update_one_keys[OF s] k have "map fst aps1 = map fst aps" by simp
    with s show ?thesis by blast
  qed
  then obtain aps1 cur1 where s: "update_one (aps, cur) sv = Inr (aps1, cur1)"
    and ks: "map fst aps1 = map fst aps" by blast
  have "\<exists>aps' cur'. update_loop (aps1, cur1) svs = Inr (aps', cur') \<and> map fst aps' = map fst aps1"
  proof (rule Cons.IH)
    fix x assume x: "x \<in> set svs" "parse_airplane_data x \<noteq> None"
    with Cons.prems[of x] obtain k where k: "record_key x = Some k" "map_of aps k \<noteq> None" by auto
    from update_one_keeps[OF s k(2)] k(1) show "\<exists>k. record_key x = Some k \<and> map_of aps1 k \<noteq> None"
      by blast
  qed
  with s ks show ?case by auto
qed

lemma update_loop_present:
  "update_loop (aps, cur) svs = Inr (aps', cur') \<Longrightarrow> k \<in> set (snapshot_keys svs) \<Longrightarrow>
     map_of aps' k \<noteq> None"
proof -
  assume r: "update_loop (aps, cur) svs = Inr (aps', cur')" and "k \<in> set (snapshot_keys svs)"
  then obtain p where "last_target k svs = Some p"
    using last_target_None[of k svs] by (cases "last_target k svs") auto
  from update_loop_target[OF r this] show ?thesis by auto
qed

lemma map_of_filter_keys:
  "map_of (filter (\<lambda>p. Q (fst p)) aps) k = (if Q k then map_of aps k else None)"
  by (induction aps) auto

subsection \<open>The update step\<close>

lemma update_airplanes_with_Inr:
  "update_airplanes_with app raw now = Inr app' \<Longrightarrow>
     \<exists>svs aps. py_iter raw = Inr svs \<and>
        update_loop (airplanes app, []) svs = Inr (aps, snapshot_keys svs) \<and>
        app' = app\<lparr>airplanes := remove_untracked aps (snapshot_keys svs) now (last_api_update app)\<rparr>"
proof -
  assume h: "update_airplanes_with app raw now = Inr app'"
  then obtain svs where svs: "py_iter raw = Inr svs"
    by (cases "py_iter raw") (auto simp add: update_airplanes_with_def)
  with h obtain aps cur where l: "update_loop (airplanes app, []) svs = Inr (aps, cur)"
    by (cases "update_loop (airplanes app, []) svs") (auto simp add: update_airplanes_with_def)
  from update_loop_cur[OF l] have c: "cur = snapshot_keys svs" by simp
  from h svs l c show ?thesis by (simp add: update_airplanes_with_def)
qed

lemma update_airplanes_with_absent:
  assumes "update_airplanes_with app raw now = Inr app'"
      and "py_iter raw = Inr svs"
      and "map_of (airplanes app) k = Some a"
      and "k \<notin> set (snapshot_keys svs)"
  shows "map_of (airplanes app') k = (if now k - last_api_update app > 60 then None else Some a)"
proof -
  let ?Q = "\<lambda>k. \<not> (k \<notin> set (snapshot_keys svs) \<and> now k - last_api_update app > 60)"
  from update_airplanes_with_Inr[OF assms(1)] assms(2) obtain aps where
    l: "update_loop (airplanes app, []) svs = Inr (aps, snapshot_keys svs)" and
    e: "app' = app\<lparr>airplanes := remove_untracked aps (snapshot_keys svs) now (last_api_update app)\<rparr>"
    by auto
  from update_loop_other[OF l assms(4)] assms(3) have m: "map_of aps k = Some a" by simp
  have "map_of (airplanes app') k = map_of (filter (\<lambda>p. ?Q (fst p)) aps) k"
    by (simp add: e remove_untracked_eq)
  also have "\<dots> = (if ?Q k then map_of aps k else None)"
    by (rule map_of_filter_keys)
  finally show ?thesis using m assms(4) by simp
qed

lemma update_airplanes_with_twice:
  assumes r1: "update_airplanes_with app raw now = Inr app1"
      and it: "py_iter raw = Inr svs"
      and t: "\<And>k a. map_of (airplanes app1) k = Some a \<Longrightarrow> k \<notin> set (snapshot_keys svs) \<Longrightarrow>
                now' k - last_api_update app \<le> 60"
  shows "\<exists>app2. update_airplanes_with app1 raw now' = Inr app2 \<and>
           map fst (airplanes app2) = map fst (airplanes app1) \<and>
           (\<forall>k a1. map_of (airplanes app1) k = Some a1 \<longrightarrow>
              (\<exists>a2. map_of (airplanes app2) k = Some a2 \<and>
                 display_lat a2 = display_lat a1 \<and> display_lon a2 = display_lon a1 \<and>
                 target_lat a2 = target_lat a1 \<and> target_lon a2 = target_lon a1))"
proof -
  let ?lu = "last_api_update app"
  let ?K = "set (snapshot_keys svs)"
  let ?Q = "\<lambda>k. \<not> (k \<notin> ?K \<and> now k - ?lu > 60)"
  let ?Q' = "\<lambda>k. \<not> (k \<notin> ?K \<and> now' k - ?lu > 60)"
  from update_airplanes_with_Inr[OF r1] it obtain aps1 where
    l1: "update_loop (airplanes app, []) svs = Inr (aps1, snapshot_keys svs)" and
    e1: "app1 = app\<lparr>airplanes := remove_untracked aps1 (snapshot_keys svs) now ?lu\<rparr>"
    by auto
  have a1: "airplanes app1 = filter (\<lambda>p. ?Q (fst p)) aps1"
    by (simp add: e1 remove_untracked_eq)
  have lu1: "last_api_update app1 = ?lu" by (simp add: e1)
  have in1: "map_of (airplanes app1) k = map_of aps1 k" if "k \<in> ?K" for k
  proof -
    have "map_of (filter (\<lambda>p. ?Q (fst p)) aps1) k = (if ?Q k then map_of aps1 k else None)"
      by (rule map_of_filter_keys)
    with that show ?thesis by (simp add: a1)
  qed
  have known: "\<exists>k. record_key sv = Some k \<and> map_of (airplanes app1) k \<noteq> None"
    if "sv \<in> set svs" "parse_airplane_data sv \<noteq> None" for sv
  proof -
    from update_loop_hashable[OF l1 that] obtain k where k: "record_key sv = Some k" by auto
    with that(1) have kk: "k \<in> ?K" by (auto simp add: in_snapshot_keys)
    from update_loop_present[OF l1 kk] in1[OF kk] k show ?thesis by simp
  qed
  from update_loop_known[of svs "airplanes app1" "[]", OF known] obtain aps2 cur2 where
    l2: "update_loop (airplanes app1, []) svs = Inr (aps2, cur2)" and
    k2: "map fst aps2 = map fst (airplanes app1)" by blast
  from update_loop_cur[OF l2] have c2: "cur2 = snapshot_keys svs" by simp
  let ?app2 = "app1\<lparr>airplanes := remove_untracked aps2 cur2 now' (last_api_update app1)\<rparr>"
  have r2: "update_airplanes_with app1 raw now' = Inr ?app2"
    by (simp add: update_airplanes_with_def it l2)
  have keep: "remove_untracked aps2 cur2 now' (last_api_update app1) = aps2"
  proof -
    have "?Q' (fst p)" if p: "p \<in> set aps2" for p
    proof (cases "fst p \<in> ?K")
      case True
      then show ?thesis by simp
    next
      case False
      from p have "fst p \<in> set (map fst aps2)" by simp
      with k2 have "fst p \<in> fst ` set (airplanes app1)" by simp
      then obtain a where "map_of (airplanes app1) (fst p) = Some a"
        by (metis map_of_eq_None_iff not_Some_eq)
      from t[OF this False] show ?thesis by simp
    qed
    then have "filter (\<lambda>p. ?Q' (fst p)) aps2 = aps2" by (intro filter_True) blast
    then show ?thesis by (simp add: remove_untracked_eq lu1 c2)
  qed
  have a2: "airplanes ?app2 = aps2" by (simp add: keep)
  have pos: "\<exists>x2. map_of aps2 k = Some x2 \<and>
                 display_lat x2 = display_lat x1 \<and> display_lon x2 = display_lon x1 \<and>
                 target_lat x2 = target_lat x1 \<and> target_lon x2 = target_lon x1"
    if m: "map_of (airplanes app1) k = Some x1" for k x1
  proof -
    from update_loop_display[OF l2 m] obtain x2 where
      x2: "map_of aps2 k = Some x2" "display_lat x2 = display_lat x1" "display_lon x2 = display_lon x1"
      by blast
    show ?thesis
    proof (cases "k \<in> ?K")
      case False
      from update_loop_other[OF l2 False] m x2(1) have "x2 = x1" by simp
      with x2 show ?thesis by simp
    next
      case True
      then obtain p where p: "last_target k svs = Some p"
        using last_target_None[of k svs] by (cases "last_target k svs") auto
      from in1[OF True] m have "map_of aps1 k = Some x1" by simp
      with update_loop_target[OF l1 p] have "(target_lat x1, target_lon x1) = p" by auto
      moreover from update_loop_target[OF l2 p] x2(1) have "(target_lat x2, target_lon x2) = p" by auto
      ultimately show ?thesis using x2 by auto
    qed
  qed
  have all: "\<forall>k x1. map_of (airplanes app1) k = Some x1 \<longrightarrow>
              (\<exists>x2. map_of (airplanes ?app2) k = Some x2 \<and>
                 display_lat x2 = display_lat x1 \<and> display_lon x2 = display_lon x1 \<and>
                 target_lat x2 = target_lat x1 \<and> target_lon x2 = target_lon x1)"
    using pos by (simp only: a2) blast
  have ks: "map fst (airplanes ?app2) = map fst (airplanes app1)"
    by (simp only: a2 k2)
  from r2 ks all show ?thesis by blast
qed

lemma update_airplanes_Inr:
  "update_airplanes app tf resp te = Inr (app', req) \<Longrightarrow>
     update_airplanes_with (app\<lparr>api_fetcher := fst (snd (fetch_airplanes (api_fetcher app) tf resp))\<rparr>)
        (fst (fetch_airplanes (api_fetcher app) tf resp)) te = Inr app' \<and>
     req = snd (snd (fetch_airplanes (api_fetcher app) tf resp))"
  by (auto simp add: update_airplanes_def split: prod.splits sum.splits)

lemma update_airplanes_with_fields:
  "update_airplanes_with app raw now = Inr app' \<Longrightarrow>
     api_fetcher app' = api_fetcher app \<and> last_api_update app' = last_api_update app"
  by (auto simp add: update_airplanes_with_def split: sum.splits prod.splits)

lemma update_airplanes_with_fetcher:
  "update_airplanes_with (app\<lparr>api_fetcher := g\<rparr>) raw now =
     (case update_airplanes_with app raw now of Inl e \<Rightarrow> Inl e | Inr a \<Rightarrow> Inr (a\<lparr>api_fetcher := g\<rparr>))"
  by (auto simp add: update_airplanes_with_def split: sum.splits prod.splits)

subsection \<open>Evaluation on the sample inputs\<close>

lemma parse_sample:
  "parse_airplane_data sample_vector =
     Some \<lparr>d_icao24 = JStr ''86d624'', d_callsign = JStr ''JAL123  '', d_country = JStr ''Japan'',
           d_longitude = 140, d_latitude = 35, d_altitude = JFloat 10000,
           d_velocity = JFloat 230, d_heading = JFloat 90\<rparr>"
  by (simp add: parse_airplane_data_def sample_vector_def ASIA_MIN_LAT_def ASIA_MAX_LAT_def
      ASIA_MIN_LON_def ASIA_MAX_LON_def)

lemma fetch_feed:
  "\<not> t - last_fetch_time f < 10 \<Longrightarrow>
   fetch_airplanes f t (feed svs) = (JList svs, f\<lparr>cache_data := JList svs, last_fetch_time := t\<rparr>, True)"
  by (simp add: fetch_airplanes_def feed_def get_states_def API_UPDATE_INTERVAL_def)

lemma fetch_cached:
  "t - last_fetch_time f < 10 \<Longrightarrow> fetch_airplanes f t resp = (cache_data f, f, False)"
  by (simp add: fetch_airplanes_def API_UPDATE_INTERVAL_def)

text \<open>
  A 200 answer whose \<^verbatim>\<open>states\<close> entry is null (the feed sends that when it has no state
  vectors) replaces the cache by \<^verbatim>\<open>None\<close> before \<^verbatim>\<open>len\<close> raises inside the \<^verbatim>\<open>try\<close> block;
  the handler returns that \<^verbatim>\<open>None\<close>, and iterating over it raises out of the update.
\<close>

lemma null_states_raise:
  "update_airplanes AirplaneTrackingApp_init 1000
     (Response 200 (Some (JDict [(''time'', JInt 1700000000), (''states'', JNull)]))) (\<lambda>_. 1000)
   = Inl TypeError"
  by (simp add: update_airplanes_def AirplaneTrackingApp_init_def AviationAPIFetcher_init_def
      fetch_airplanes_def API_UPDATE_INTERVAL_def get_states_def update_airplanes_with_def)

lemma fetch_exception:
  "\<not> t - last_fetch_time f < 10 \<Longrightarrow>
   fetch_airplanes f t RequestException = (cache_data f, f, True)"
  by (simp add: fetch_airplanes_def API_UPDATE_INTERVAL_def)

lemma sample_created:
  "Airplane_init (JStr ''86d624'') (JStr ''JAL123  '') 35 140 (JFloat 90) (JFloat 10000) (JFloat 230)
     = Inr sample_airplane"
  by (simp add: Airplane_init_def init_callsign_def assign_color_by_callsign_def Let_def
      py_strip_def py_isspace_def sample_airplane_def)

lemma update_one_sample:
  "update_one ([], []) sample_vector = Inr ([(KStr ''86d624'', sample_airplane)], [KStr ''86d624''])"
  by (simp add: update_one_def parse_sample sample_created)

lemma sample_app_reached:
  "run_start AirplaneTrackingApp_init 1000 (feed [sample_vector]) (\<lambda>_. 1000) 1000 = Inr (sample_app, True)"
  by (simp add: run_start_def update_airplanes_def AirplaneTrackingApp_init_def
      AviationAPIFetcher_init_def fetch_feed update_airplanes_with_def update_one_sample
      remove_untracked_def sample_app_def)

text \<open>A pass of the loop while the only airplane is absent from an empty cached snapshot.\<close>

lemma interpolate_at_rest:
  "prev_lat a = target_lat a \<Longrightarrow> prev_lon a = target_lon a \<Longrightarrow>
   display_lat a = target_lat a \<Longrightarrow> display_lon a = target_lon a \<Longrightarrow>
   interpolate a = a\<lparr>interp_step := (if interp_step a < 30 then interp_step a + 1 else interp_step a)\<rparr>"
  by (simp add: interpolate_def INTERPOLATION_STEPS_def Let_def linear_interpolation_def)

lemma tick_quiet:
  assumes "10 \<le> t - lu" "t - lu \<le> 60" "10 \<le> t - lf" "n < 30"
  shows "tick \<lparr>airplanes = [(k, sample_airplane\<lparr>interp_step := n\<rparr>)],
               api_fetcher = \<lparr>last_fetch_time = lf, cache_data = JList []\<rparr>,
               last_api_update = lu\<rparr> t t RequestException (\<lambda>_. t) =
         Inr (\<lparr>airplanes = [(k, sample_airplane\<lparr>interp_step := n + 1\<rparr>)],
               api_fetcher = \<lparr>last_fetch_time = lf, cache_data = JList []\<rparr>,
               last_api_update = t\<rparr>, True)"
proof -
  have i: "interpolate (sample_airplane\<lparr>interp_step := n\<rparr>) = sample_airplane\<lparr>interp_step := n + 1\<rparr>"
    using assms(4) by (subst interpolate_at_rest) (simp_all add: sample_airplane_def)
  show ?thesis
    using assms
    by (simp add: tick_def i API_UPDATE_INTERVAL_def update_airplanes_def fetch_exception
        update_airplanes_with_def remove_untracked_def)
qed

lemma tick_empty:
  "tick sample_app 1010 1010 (feed []) (\<lambda>_. 1010) =
     Inr (\<lparr>airplanes = [(KStr ''86d624'', sample_airplane\<lparr>interp_step := 1\<rparr>)],
           api_fetcher = \<lparr>last_fetch_time = 1010, cache_data = JList []\<rparr>,
           last_api_update = 1010\<rparr>, True)"
proof -
  have i: "interpolate sample_airplane = sample_airplane\<lparr>interp_step := 1\<rparr>"
    by (subst interpolate_at_rest) (simp_all add: sample_airplane_def)
  show ?thesis
    by (simp add: tick_def sample_app_def i API_UPDATE_INTERVAL_def update_airplanes_def fetch_feed
        update_airplanes_with_def remove_untracked_def)
qed

lemma idle_app_reached: "tick sample_app 1010 1010 (feed []) (\<lambda>_. 1010) = Inr (idle_app, True)"
  by (simp add: tick_empty idle_app_def)

lemma tick_wait:
  assumes "t - lu < 10" "n < 30"
  shows "tick \<lparr>airplanes = [(k, sample_airplane\<lparr>interp_step := n\<rparr>)],
               api_fetcher = f, last_api_update = lu\<rparr> t tf resp te =
         Inr (\<lparr>airplanes = [(k, sample_airplane\<lparr>interp_step := n + 1\<rparr>)],
               api_fetcher = f, last_api_update = lu\<rparr>, False)"
proof -
  have i: "interpolate (sample_airplane\<lparr>interp_step := n\<rparr>) = sample_airplane\<lparr>interp_step := n + 1\<rparr>"
    using assms(2) by (subst interpolate_at_rest) (simp_all add: sample_airplane_def)
  show ?thesis using assms(1) by (simp add: tick_def i API_UPDATE_INTERVAL_def)
qed

lemma parse_moved:
  "parse_airplane_data moved_vector =
     Some \<lparr>d_icao24 = JStr ''86d624'', d_callsign = JStr ''JAL123  '', d_country = JStr ''Japan'',
           d_longitude = 141, d_latitude = 36, d_altitude = JFloat 10000,
           d_velocity = JFloat 230, d_heading = JFloat 90\<rparr>"
  by (simp add: parse_airplane_data_def moved_vector_def ASIA_MIN_LAT_def ASIA_MAX_LAT_def
      ASIA_MIN_LON_def ASIA_MAX_LON_def)

subsection \<open>The loop of run\<close>

lemma tick_last_api_update:
  "tick app tc tf resp te = Inr (app', req) \<Longrightarrow>
     last_api_update app' =
       (if tc - last_api_update app \<ge> API_UPDATE_INTERVAL then tc else last_api_update app)"
  by (auto simp add: tick_def Let_def split: if_splits sum.splits prod.splits)

lemma tick_closed:
  "tc - last_api_update app < API_UPDATE_INTERVAL \<Longrightarrow>
     tick app tc tf resp te =
       Inr (app\<lparr>airplanes := map (\<lambda>(icao, a). (icao, interpolate a)) (airplanes app)\<rparr>, False)"
  by (simp add: tick_def Let_def)

lemma tick_requested:
  "tick app tc tf resp te = Inr (app', True) \<Longrightarrow>
     tc - last_api_update app \<ge> API_UPDATE_INTERVAL \<and> last_api_update app' = tc"
  by (auto simp add: tick_def Let_def split: if_splits sum.splits prod.splits)

lemma tick_returned:
  "tick app tc tf resp te = Inr (app', q) \<Longrightarrow> tc - last_api_update app \<ge> API_UPDATE_INTERVAL \<Longrightarrow>
     last_api_update app' = tc \<and> q = snd (snd (fetch_airplanes (api_fetcher app) tf resp))"
  by (auto simp add: tick_def Let_def update_airplanes_def split: sum.splits prod.splits)

lemma tick_raised:
  "tick app tc tf resp te = Inl e \<Longrightarrow>
     tc - last_api_update app \<ge> API_UPDATE_INTERVAL \<and>
     update_airplanes (app\<lparr>airplanes := map (\<lambda>(icao, a). (icao, interpolate a)) (airplanes app)\<rparr>)
       tf resp te = Inl e"
  by (auto simp add: tick_def Let_def split: if_splits sum.splits prod.splits)

lemma spaced_Cons:
  "spaced d ys \<Longrightarrow> (\<And>y. y \<in> set ys \<Longrightarrow> d \<le> y - x) \<Longrightarrow> spaced d (x # ys)"
  by (cases ys) auto

lemma run_loop_spaced:
  "run_loop app inputs = Inr (app', asked) \<Longrightarrow>
     spaced API_UPDATE_INTERVAL asked \<and>
     (\<forall>t \<in> set asked. API_UPDATE_INTERVAL \<le> t - last_api_update app)"
proof (induction inputs arbitrary: app asked)
  case Nil
  then show ?case by simp
next
  case (Cons i inputs)
  obtain tc tf resp te where i: "i = (tc, tf, resp, te)" by (cases i) auto
  from Cons.prems i obtain app1 req asked1 where
    t: "tick app tc tf resp te = Inr (app1, req)" and
    r: "run_loop app1 inputs = Inr (app', asked1)" and
    a: "asked = (if req then [tc] else []) @ asked1"
    by (auto split: sum.splits prod.splits)
  from Cons.IH[OF r] have sp: "spaced API_UPDATE_INTERVAL asked1"
    and lb: "\<And>t. t \<in> set asked1 \<Longrightarrow> API_UPDATE_INTERVAL \<le> t - last_api_update app1" by auto
  have pos: "0 \<le> API_UPDATE_INTERVAL" by (simp add: API_UPDATE_INTERVAL_def)
  from tick_last_api_update[OF t] pos have mono: "last_api_update app \<le> last_api_update app1"
    by (auto split: if_splits)
  show ?case
  proof (cases req)
    case False
    with a sp lb mono show ?thesis by fastforce
  next
    case True
    with t tick_requested have g: "tc - last_api_update app \<ge> API_UPDATE_INTERVAL"
      and e: "last_api_update app1 = tc" by auto
    from lb e have "\<And>t. t \<in> set asked1 \<Longrightarrow> API_UPDATE_INTERVAL \<le> t - tc" by simp
    with sp have "spaced API_UPDATE_INTERVAL (tc # asked1)" by (rule spaced_Cons)
    moreover have "\<forall>t \<in> set (tc # asked1). API_UPDATE_INTERVAL \<le> t - last_api_update app"
      using g lb mono by fastforce
    ultimately show ?thesis using a True by simp
  qed
qed

lemma run_loop_recorded:
  "run_loop app inputs = Inr (app', asked) \<Longrightarrow>
     last_api_update app \<le> last_api_update app' \<and>
     (\<forall>t \<in> set asked. t \<le> last_api_update app')"
proof (induction inputs arbitrary: app asked)
  case Nil
  then show ?case by simp
next
  case (Cons i inputs)
  obtain tc tf resp te where i: "i = (tc, tf, resp, te)" by (cases i) auto
  from Cons.prems i obtain app1 req asked1 where
    t: "tick app tc tf resp te = Inr (app1, req)" and
    r: "run_loop app1 inputs = Inr (app', asked1)" and
    a: "asked = (if req then [tc] else []) @ asked1"
    by (auto split: sum.splits prod.splits)
  from Cons.IH[OF r] have m1: "last_api_update app1 \<le> last_api_update app'"
    and ub: "\<And>t. t \<in> set asked1 \<Longrightarrow> t \<le> last_api_update app'" by auto
  have pos: "0 \<le> API_UPDATE_INTERVAL" by (simp add: API_UPDATE_INTERVAL_def)
  from tick_last_api_update[OF t] pos have mono: "last_api_update app \<le> last_api_update app1"
    by (auto split: if_splits)
  have "tc \<le> last_api_update app'" if req
  proof -
    from that t tick_requested have "last_api_update app1 = tc" by auto
    with m1 show ?thesis by simp
  qed
  with a ub mono m1 show ?case by auto
qed

lemma parse_Some:
  "parse_airplane_data sv = Some d \<Longrightarrow>
     \<exists>xs lat lon. sv = JList xs \<and> 11 \<le> length xs \<and> xs ! 5 \<noteq> JNull \<and> xs ! 6 \<noteq> JNull \<and>
        py_number (xs ! 6) = Some lat \<and> py_number (xs ! 5) = Some lon \<and>
        ASIA_MIN_LAT \<le> lat \<and> lat \<le> ASIA_MAX_LAT \<and> ASIA_MIN_LON \<le> lon \<and> lon \<le> ASIA_MAX_LON"
  by (cases sv) (auto simp add: parse_airplane_data_def split: if_splits option.splits)

lemma update_loop_skips:
  "update_loop st svs = update_loop st (filter (\<lambda>sv. parse_airplane_data sv \<noteq> None) svs)"
proof (induction svs arbitrary: st)
  case Nil
  then show ?case by simp
next
  case (Cons sv svs)
  show ?case
  proof (cases "parse_airplane_data sv")
    case None
    then show ?thesis by (simp add: update_one_skip Cons.IH)
  next
    case (Some d)
    then show ?thesis by (auto simp add: Cons.IH split: sum.splits)
  qed
qed

lemma fetch_failed:
  "resp = RequestException \<or>
   (\<exists>c b. resp = Response c b \<and> (c \<noteq> 200 \<or> b = None \<or> (\<exists>data e. b = Some data \<and> get_states data = Inl e)))
   \<Longrightarrow> fst (fetch_airplanes f t resp) = cache_data f \<and> fst (snd (fetch_airplanes f t resp)) = f"
  by (auto simp add: fetch_airplanes_def)

section \<open>Properties of the store and the scheduler\<close>

text \<open>
  Claim C2, as stated: an airplane absent from the current snapshot is evicted on the first
  update after the time since the last successful snapshot exceeds 60 seconds. A run of the
  code: the first update at time 1000 finds the airplane; the pass at 1010 gets an empty
  snapshot, the last successful one; the passes at 1020, ..., 1080 find the feed down and work
  on the cached empty snapshot. At 1080 the last successful snapshot is 70 seconds old
  (\<^verbatim>\<open>last_fetch_time\<close> is 1010), the airplane is absent from the snapshot, and it is still
  tracked: every pass has reset \<^verbatim>\<open>last_api_update\<close>.
\<close>

theorem stale_airplane_kept_while_feed_down:
  "case run_start AirplaneTrackingApp_init 1000 (feed [sample_vector]) (\<lambda>_. 1000) 1000 of
     Inl e \<Rightarrow> False
   | Inr (app0, r0) \<Rightarrow>
       (case run_loop app0
               [(1010, 1010, feed [], \<lambda>_. 1010),
                (1020, 1020, RequestException, \<lambda>_. 1020),
                (1030, 1030, RequestException, \<lambda>_. 1030),
                (1040, 1040, RequestException, \<lambda>_. 1040),
                (1050, 1050, RequestException, \<lambda>_. 1050),
                (1060, 1060, RequestException, \<lambda>_. 1060),
                (1070, 1070, RequestException, \<lambda>_. 1070),
                (1080, 1080, RequestException, \<lambda>_. 1080)] of
          Inl e \<Rightarrow> False
        | Inr (app, asked) \<Rightarrow>
            last_fetch_time (api_fetcher app) = 1010 \<and>
            cache_data (api_fetcher app) = JList [] \<and>
            last_api_update app = 1080 \<and>
            map fst (airplanes app) = [KStr ''86d624''])"
  by (simp add: sample_app_reached tick_empty tick_quiet)

text \<open>
  Claim C2, amended: for every tracked airplane absent from the current snapshot,
  \<^verbatim>\<open>update_airplanes\<close> keeps it, unchanged, while the time since \<^verbatim>\<open>last_api_update\<close> is at
  most 60 seconds, and removes it when that time exceeds 60 seconds; so a missed or empty
  snapshot within the 60 seconds never removes it. The time is taken at the clock reading
  made for that airplane. \<^verbatim>\<open>last_api_update\<close> is the time of the last pass of \<^verbatim>\<open>run\<close>
  whose update returned, whether or not its fetch succeeded.
\<close>

theorem absent_airplane_grace_window:
  assumes "update_airplanes app t_fetch resp t_remove = Inr (app', req)"
      and "py_iter (fst (fetch_airplanes (api_fetcher app) t_fetch resp)) = Inr svs"
      and "map_of (airplanes app) k = Some a"
      and "k \<notin> set (snapshot_keys svs)"
  shows "(t_remove k - last_api_update app \<le> 60 \<longrightarrow> map_of (airplanes app') k = Some a) \<and>
         (t_remove k - last_api_update app > 60 \<longrightarrow> map_of (airplanes app') k = None) \<and>
         (\<forall>app0 tc tf0 r0 te0 app1 q.
            tick app0 tc tf0 r0 te0 = Inr (app1, q) \<longrightarrow>
            last_api_update app1 =
              (if tc - last_api_update app0 \<ge> API_UPDATE_INTERVAL then tc
               else last_api_update app0))"
proof -
  let ?f = "fst (snd (fetch_airplanes (api_fetcher app) t_fetch resp))"
  let ?raw = "fst (fetch_airplanes (api_fetcher app) t_fetch resp)"
  from update_airplanes_Inr[OF assms(1)] have
    w: "update_airplanes_with (app\<lparr>api_fetcher := ?f\<rparr>) ?raw t_remove = Inr app'" by simp
  have m: "map_of (airplanes (app\<lparr>api_fetcher := ?f\<rparr>)) k = Some a" using assms(3) by simp
  from update_airplanes_with_absent[OF w assms(2) m assms(4)]
  have "map_of (airplanes app') k =
          (if t_remove k - last_api_update app > 60 then None else Some a)" by simp
  then show ?thesis using tick_last_api_update by auto
qed

theorem absent_airplane_grace_window_witness:
  "update_airplanes sample_app 1010 (feed []) (\<lambda>_. 1010) =
     Inr (sample_app\<lparr>api_fetcher := \<lparr>last_fetch_time = 1010, cache_data = JList []\<rparr>\<rparr>, True) \<and>
   map_of (airplanes (sample_app\<lparr>api_fetcher := \<lparr>last_fetch_time = 1010, cache_data = JList []\<rparr>\<rparr>))
     (KStr ''86d624'') = Some sample_airplane \<and>
   update_airplanes sample_app 1070 (feed []) (\<lambda>_. 1070) =
     Inr (sample_app\<lparr>api_fetcher := \<lparr>last_fetch_time = 1070, cache_data = JList []\<rparr>,
                     airplanes := []\<rparr>, True) \<and>
   tick idle_app 1020 1020 RequestException (\<lambda>_. 1020) =
     Inr (idle_app\<lparr>airplanes := [(KStr ''86d624'', sample_airplane\<lparr>interp_step := 2\<rparr>)],
                   last_api_update := 1020\<rparr>, True)"
proof -
  let ?k = "KStr ''86d624''"
  let ?f1 = "\<lparr>last_fetch_time = 1010, cache_data = JList []\<rparr>"
  let ?f2 = "\<lparr>last_fetch_time = 1070, cache_data = JList []\<rparr>"
  let ?r1 = "remove_untracked (airplanes sample_app) [] (\<lambda>_. 1010) 1000"
  let ?r2 = "remove_untracked (airplanes sample_app) [] (\<lambda>_. 1070) 1000"
  let ?i2 = "idle_app\<lparr>airplanes := [(?k, sample_airplane\<lparr>interp_step := 2\<rparr>)]\<rparr>"
  have m: "map_of (airplanes sample_app) ?k = Some sample_airplane"
    by (simp add: sample_app_def)
  have u1: "update_airplanes sample_app 1010 (feed []) (\<lambda>_. 1010) =
      Inr (sample_app\<lparr>api_fetcher := ?f1, airplanes := ?r1\<rparr>, True)"
    by (simp add: update_airplanes_def fetch_feed sample_app_def update_airplanes_with_def)
  have u2: "update_airplanes sample_app 1070 (feed []) (\<lambda>_. 1070) =
      Inr (sample_app\<lparr>api_fetcher := ?f2, airplanes := ?r2\<rparr>, True)"
    by (simp add: update_airplanes_def fetch_feed sample_app_def update_airplanes_with_def)
  have s1: "py_iter (fst (fetch_airplanes (api_fetcher sample_app) 1010 (feed []))) = Inr []"
    by (simp add: fetch_feed sample_app_def)
  have s2: "py_iter (fst (fetch_airplanes (api_fetcher sample_app) 1070 (feed []))) = Inr []"
    by (simp add: fetch_feed sample_app_def)
  have n: "?k \<notin> set (snapshot_keys [])" by (simp add: snapshot_keys_Nil)
  have lu: "last_api_update sample_app = 1000" by (simp add: sample_app_def)
  have t: "tick idle_app 1020 1020 RequestException (\<lambda>_. 1020) = Inr (?i2\<lparr>last_api_update := 1020\<rparr>, True)"
    by (simp add: idle_app_def tick_quiet)
  note w1 = absent_airplane_grace_window [OF u1 s1 m n]
  note w2 = absent_airplane_grace_window [OF u2 s2 m n]
  from w1 lu have k1: "map_of ?r1 ?k = Some sample_airplane" by simp
  from w2 lu have k2: "map_of ?r2 ?k = None" by simp
  have r1: "?r1 = airplanes sample_app" using k1 by (simp add: remove_untracked_def)
  have r2: "?r2 = []" using k2 by (simp add: remove_untracked_def sample_app_def)
  from k1 u1 u2 r1 r2 t show ?thesis by simp
qed

text \<open>
  Claim C5, as stated: \<^verbatim>\<open>last_api_update\<close> is set to the time of the pass whenever a request
  is made, whether or not the request succeeds. Line 712 runs only after
  \<^verbatim>\<open>update_airplanes\<close> has returned. Here the pass at 1020 asks the feed (the fetcher's flag
  is true), the feed answers with status 200 and a \<^verbatim>\<open>states\<close> entry that is null, and the
  update raises \<^verbatim>\<open>TypeError\<close> when it iterates over it: the request was made and no time was
  recorded.
\<close>

theorem request_made_but_not_recorded:
  "snd (snd (fetch_airplanes (api_fetcher idle_app) 1020
       (Response 200 (Some (JDict [(''time'', JInt 1700000020), (''states'', JNull)]))))) = True \<and>
   tick idle_app 1020 1020
       (Response 200 (Some (JDict [(''time'', JInt 1700000020), (''states'', JNull)])))
       (\<lambda>_. 1020) = Inl TypeError"
  by (simp add: tick_def idle_app_def API_UPDATE_INTERVAL_def update_airplanes_def
      fetch_airplanes_def get_states_def update_airplanes_with_def)

text \<open>
  Claim C5, amended. In a pass of \<^verbatim>\<open>run\<close> at time \<open>tc\<close>: when less than
  \<^verbatim>\<open>API_UPDATE_INTERVAL\<close> has passed since \<^verbatim>\<open>last_api_update\<close> the pass only interpolates and
  the feed is not asked; when the feed is asked and the pass returns, the interval has
  passed and \<^verbatim>\<open>last_api_update\<close> becomes \<open>tc\<close>; more generally \<^verbatim>\<open>last_api_update\<close> becomes
  \<open>tc\<close> whenever the update is called and returns, whether the request succeeded, failed
  or was not made by the fetcher; when the update raises, the interval had passed, nothing
  is recorded and \<^verbatim>\<open>run\<close> ends with that exception. Hence in every run of passes, whatever
  the clock readings and the answers, the passes that ask the feed are at least the
  interval apart, at least the interval after the initial \<^verbatim>\<open>last_api_update\<close>, and not
  later than the final \<^verbatim>\<open>last_api_update\<close> (so that any further pass that calls the update,
  also one that raises, comes at least the interval after them).
\<close>

theorem feed_request_floor:
  "(tc - last_api_update app < API_UPDATE_INTERVAL \<longrightarrow>
      tick app tc tf resp te =
        Inr (app\<lparr>airplanes := map (\<lambda>(icao, a). (icao, interpolate a)) (airplanes app)\<rparr>, False)) \<and>
   (\<forall>app'. tick app tc tf resp te = Inr (app', True) \<longrightarrow>
      tc - last_api_update app \<ge> API_UPDATE_INTERVAL \<and> last_api_update app' = tc) \<and>
   (\<forall>app' q. tick app tc tf resp te = Inr (app', q) \<and>
        tc - last_api_update app \<ge> API_UPDATE_INTERVAL \<longrightarrow>
      last_api_update app' = tc \<and> q = snd (snd (fetch_airplanes (api_fetcher app) tf resp))) \<and>
   (\<forall>e. tick app tc tf resp te = Inl e \<longrightarrow>
      tc - last_api_update app \<ge> API_UPDATE_INTERVAL \<and>
      update_airplanes
        (app\<lparr>airplanes := map (\<lambda>(icao, a). (icao, interpolate a)) (airplanes app)\<rparr>)
        tf resp te = Inl e) \<and>
   (\<forall>app' asked. run_loop app inputs = Inr (app', asked) \<longrightarrow>
      spaced API_UPDATE_INTERVAL asked \<and>
      (\<forall>t \<in> set asked. API_UPDATE_INTERVAL \<le> t - last_api_update app) \<and>
      (\<forall>t \<in> set asked. t \<le> last_api_update app'))"
proof -
  have c1: "tc - last_api_update app < API_UPDATE_INTERVAL \<longrightarrow>
      tick app tc tf resp te =
        Inr (app\<lparr>airplanes := map (\<lambda>(icao, a). (icao, interpolate a)) (airplanes app)\<rparr>, False)"
    using tick_closed by blast
  have c2: "\<forall>app'. tick app tc tf resp te = Inr (app', True) \<longrightarrow>
      tc - last_api_update app \<ge> API_UPDATE_INTERVAL \<and> last_api_update app' = tc"
    using tick_requested by blast
  have c3: "\<forall>app' q. tick app tc tf resp te = Inr (app', q) \<and>
        tc - last_api_update app \<ge> API_UPDATE_INTERVAL \<longrightarrow>
      last_api_update app' = tc \<and> q = snd (snd (fetch_airplanes (api_fetcher app) tf resp))"
    using tick_returned by blast
  have c4: "\<forall>e. tick app tc tf resp te = Inl e \<longrightarrow>
      tc - last_api_update app \<ge> API_UPDATE_INTERVAL \<and>
      update_airplanes
        (app\<lparr>airplanes := map (\<lambda>(icao, a). (icao, interpolate a)) (airplanes app)\<rparr>)
        tf resp te = Inl e"
    using tick_raised by blast
  have c5: "\<forall>app' asked. run_loop app inputs = Inr (app', asked) \<longrightarrow>
      spaced API_UPDATE_INTERVAL asked \<and>
      (\<forall>t \<in> set asked. API_UPDATE_INTERVAL \<le> t - last_api_update app) \<and>
      (\<forall>t \<in> set asked. t \<le> last_api_update app')"
    using run_loop_spaced run_loop_recorded by blast
  from c1 c2 c3 c4 c5 show ?thesis by blast
qed

theorem feed_request_floor_witness:
  "tick idle_app 1015 1015 RequestException (\<lambda>_. 1015) =
     Inr (idle_app\<lparr>airplanes := [(KStr ''86d624'', sample_airplane\<lparr>interp_step := 2\<rparr>)]\<rparr>, False) \<and>
   tick idle_app 1020 1020 RequestException (\<lambda>_. 1020) =
     Inr (idle_app\<lparr>airplanes := [(KStr ''86d624'', sample_airplane\<lparr>interp_step := 2\<rparr>)],
                   last_api_update := 1020\<rparr>, True) \<and>
   API_UPDATE_INTERVAL \<le> 1020 - last_api_update idle_app \<and>
   (\<exists>app'. run_loop idle_app
        [(1015, 1015, RequestException, \<lambda>_. 1015), (1020, 1020, RequestException, \<lambda>_. 1020),
         (1025, 1025, RequestException, \<lambda>_. 1025), (1030, 1030, RequestException, \<lambda>_. 1030)]
        = Inr (app', [1020, 1030])) \<and>
   spaced API_UPDATE_INTERVAL [1020, 1030] \<and>
   snd (snd (fetch_airplanes (api_fetcher idle_app) 1020 RequestException)) = True \<and>
   update_airplanes
     (idle_app\<lparr>airplanes := map (\<lambda>(icao, a). (icao, interpolate a)) (airplanes idle_app)\<rparr>)
     1020 (Response 200 (Some (JDict [(''time'', JInt 1700000020), (''states'', JNull)])))
     (\<lambda>_. 1020) = Inl TypeError"
proof -
  let ?null = "Response 200 (Some (JDict [(''time'', JInt 1700000020), (''states'', JNull)]))"
  let ?ins = "[(1015, 1015, RequestException, \<lambda>_. 1015), (1020, 1020, RequestException, \<lambda>_. 1020),
         (1025, 1025, RequestException, \<lambda>_. 1025), (1030::real, 1030::real, RequestException, \<lambda>_. 1030::real)]"
  let ?a2 = "idle_app\<lparr>airplanes := [(KStr ''86d624'', sample_airplane\<lparr>interp_step := 2\<rparr>)],
                   last_api_update := 1020\<rparr>"
  let ?a4 = "idle_app\<lparr>airplanes := [(KStr ''86d624'', sample_airplane\<lparr>interp_step := 5\<rparr>)],
                   last_api_update := 1030\<rparr>"
  have lu: "last_api_update idle_app = 1010" by (simp add: idle_app_def)
  have closed: "1015 - last_api_update idle_app < API_UPDATE_INTERVAL"
    by (simp add: lu API_UPDATE_INTERVAL_def)
  have t2: "tick idle_app 1020 1020 RequestException (\<lambda>_. 1020) = Inr (?a2, True)"
    by (simp add: idle_app_def tick_quiet)
  have rl: "run_loop idle_app ?ins = Inr (?a4, [1020, 1030])"
    by (simp add: idle_app_def tick_quiet tick_wait)
  note c1 = feed_request_floor [of 1015 idle_app 1015 RequestException "\<lambda>_. 1015" ?ins]
  note c2 = feed_request_floor [of 1020 idle_app 1020 RequestException "\<lambda>_. 1020" ?ins]
  from c1 closed have p1: "tick idle_app 1015 1015 RequestException (\<lambda>_. 1015) =
      Inr (idle_app\<lparr>airplanes := map (\<lambda>(icao, a). (icao, interpolate a)) (airplanes idle_app)\<rparr>, False)"
    by blast
  have i: "interpolate (sample_airplane\<lparr>interp_step := 1\<rparr>) = sample_airplane\<lparr>interp_step := 2\<rparr>"
    by (subst interpolate_at_rest) (simp_all add: sample_airplane_def)
  have p1': "tick idle_app 1015 1015 RequestException (\<lambda>_. 1015) =
     Inr (idle_app\<lparr>airplanes := [(KStr ''86d624'', sample_airplane\<lparr>interp_step := 2\<rparr>)]\<rparr>, False)"
    using p1 by (simp add: idle_app_def i)
  from c2 t2 have p2: "API_UPDATE_INTERVAL \<le> 1020 - last_api_update idle_app" by blast
  from c2 rl have p3: "spaced API_UPDATE_INTERVAL [1020, 1030]" by blast
  have open': "1020 - last_api_update idle_app \<ge> API_UPDATE_INTERVAL"
    by (simp add: lu API_UPDATE_INTERVAL_def)
  from c2 t2 open' have "True = snd (snd (fetch_airplanes (api_fetcher idle_app) 1020 RequestException))"
    by blast
  then have p4: "snd (snd (fetch_airplanes (api_fetcher idle_app) 1020 RequestException)) = True"
    by simp
  have t3: "tick idle_app 1020 1020 ?null (\<lambda>_. 1020) = Inl TypeError"
    by (simp add: tick_def idle_app_def API_UPDATE_INTERVAL_def update_airplanes_def
        fetch_airplanes_def get_states_def update_airplanes_with_def)
  note c3 = feed_request_floor [of 1020 idle_app 1020 ?null "\<lambda>_. 1020" ?ins]
  from c3 t3 have p5: "update_airplanes
     (idle_app\<lparr>airplanes := map (\<lambda>(icao, a). (icao, interpolate a)) (airplanes idle_app)\<rparr>)
     1020 ?null (\<lambda>_. 1020) = Inl TypeError" by blast
  from p1' t2 p2 rl p3 p4 p5 show ?thesis by blast
qed

text \<open>
  Claim C6, as stated: two runs of \<^verbatim>\<open>update_airplanes\<close> on an identical snapshot leave the
  same number of airplanes. The code reads the clock in each run. Here the first run, at
  time 1055, gets an empty snapshot 55 seconds after \<^verbatim>\<open>last_api_update\<close> and keeps the
  airplane; the second run, at 1062, is served the same snapshot from the cache (the flag
  says that the feed was not asked) and removes the airplane, 62 seconds having passed.
\<close>

theorem second_run_crosses_grace_window:
  "update_airplanes sample_app 1055 (feed []) (\<lambda>_. 1055) =
     Inr (sample_app\<lparr>api_fetcher := \<lparr>last_fetch_time = 1055, cache_data = JList []\<rparr>\<rparr>, True) \<and>
   update_airplanes
       (sample_app\<lparr>api_fetcher := \<lparr>last_fetch_time = 1055, cache_data = JList []\<rparr>\<rparr>)
       1062 (feed []) (\<lambda>_. 1062) =
     Inr (sample_app\<lparr>api_fetcher := \<lparr>last_fetch_time = 1055, cache_data = JList []\<rparr>,
                     airplanes := []\<rparr>, False) \<and>
   length (airplanes (sample_app\<lparr>api_fetcher := \<lparr>last_fetch_time = 1055, cache_data = JList []\<rparr>\<rparr>)) = 1"
  by (simp add: update_airplanes_def fetch_feed fetch_cached sample_app_def
      update_airplanes_with_def remove_untracked_def)

text \<open>
  Claim C6, amended: when \<^verbatim>\<open>update_airplanes\<close> is run twice on an identical snapshot and,
  for every airplane that is tracked after the first run and absent from the snapshot, the
  clock reading that the second run takes for it is at most 60 seconds after
  \<^verbatim>\<open>last_api_update\<close>, the second run does not raise, the dictionary has the same keys in
  the same order (so the same count), and every airplane has the display position and the
  target position it had after the first run.
\<close>

theorem update_airplanes_same_snapshot_twice:
  assumes r1: "update_airplanes app tf resp te = Inr (app1, q1)"
      and same: "fst (fetch_airplanes (api_fetcher app1) tf' resp') =
                 fst (fetch_airplanes (api_fetcher app) tf resp)"
      and it: "py_iter (fst (fetch_airplanes (api_fetcher app) tf resp)) = Inr svs"
      and t: "\<forall>k a. map_of (airplanes app1) k = Some a \<and> k \<notin> set (snapshot_keys svs) \<longrightarrow>
                te' k - last_api_update app \<le> 60"
  shows "\<exists>app2 q2. update_airplanes app1 tf' resp' te' = Inr (app2, q2) \<and>
           map fst (airplanes app2) = map fst (airplanes app1) \<and>
           (\<forall>k a1. map_of (airplanes app1) k = Some a1 \<longrightarrow>
              (\<exists>a2. map_of (airplanes app2) k = Some a2 \<and>
                 display_lat a2 = display_lat a1 \<and> display_lon a2 = display_lon a1 \<and>
                 target_lat a2 = target_lat a1 \<and> target_lon a2 = target_lon a1))"
proof -
  let ?raw = "fst (fetch_airplanes (api_fetcher app) tf resp)"
  let ?f = "fst (snd (fetch_airplanes (api_fetcher app) tf resp))"
  let ?f' = "fst (snd (fetch_airplanes (api_fetcher app1) tf' resp'))"
  let ?q' = "snd (snd (fetch_airplanes (api_fetcher app1) tf' resp'))"
  from update_airplanes_Inr[OF r1] have
    w1: "update_airplanes_with (app\<lparr>api_fetcher := ?f\<rparr>) ?raw te = Inr app1" by simp
  have "\<exists>app2. update_airplanes_with app1 ?raw te' = Inr app2 \<and>
           map fst (airplanes app2) = map fst (airplanes app1) \<and>
           (\<forall>k a1. map_of (airplanes app1) k = Some a1 \<longrightarrow>
              (\<exists>a2. map_of (airplanes app2) k = Some a2 \<and>
                 display_lat a2 = display_lat a1 \<and> display_lon a2 = display_lon a1 \<and>
                 target_lat a2 = target_lat a1 \<and> target_lon a2 = target_lon a1))"
  proof (rule update_airplanes_with_twice[OF w1 it])
    fix k a
    assume "map_of (airplanes app1) k = Some a" "k \<notin> set (snapshot_keys svs)"
    with t show "te' k - last_api_update (app\<lparr>api_fetcher := ?f\<rparr>) \<le> 60" by simp
  qed
  then obtain app2 where
    w2: "update_airplanes_with app1 ?raw te' = Inr app2" and
    ks: "map fst (airplanes app2) = map fst (airplanes app1)" and
    ps: "\<forall>k a1. map_of (airplanes app1) k = Some a1 \<longrightarrow>
              (\<exists>a2. map_of (airplanes app2) k = Some a2 \<and>
                 display_lat a2 = display_lat a1 \<and> display_lon a2 = display_lon a1 \<and>
                 target_lat a2 = target_lat a1 \<and> target_lon a2 = target_lon a1)"
    by blast
  have u2: "update_airplanes app1 tf' resp' te' = Inr (app2\<lparr>api_fetcher := ?f'\<rparr>, ?q')"
    by (simp add: update_airplanes_def case_prod_beta same update_airplanes_with_fetcher w2)
  have ks': "map fst (airplanes (app2\<lparr>api_fetcher := ?f'\<rparr>)) = map fst (airplanes app1)"
    using ks by simp
  have ps': "\<forall>k a1. map_of (airplanes app1) k = Some a1 \<longrightarrow>
              (\<exists>a2. map_of (airplanes (app2\<lparr>api_fetcher := ?f'\<rparr>)) k = Some a2 \<and>
                 display_lat a2 = display_lat a1 \<and> display_lon a2 = display_lon a1 \<and>
                 target_lat a2 = target_lat a1 \<and> target_lon a2 = target_lon a1)"
    using ps by simp
  from u2 ks' ps' show ?thesis by blast
qed

theorem update_airplanes_same_snapshot_twice_witness:
  "\<exists>app1 app2 q2.
     update_airplanes sample_app 1010 (feed [moved_vector]) (\<lambda>_. 1010) = Inr (app1, True) \<and>
     update_airplanes app1 1015 RequestException (\<lambda>_. 1015) = Inr (app2, q2) \<and>
     map fst (airplanes app1) = [KStr ''86d624''] \<and>
     map fst (airplanes app2) = [KStr ''86d624''] \<and>
     (\<exists>a1 a2. map_of (airplanes app1) (KStr ''86d624'') = Some a1 \<and>
         map_of (airplanes app2) (KStr ''86d624'') = Some a2 \<and>
         (display_lat a1, display_lon a1, target_lat a1, target_lon a1) = (35, 140, 36, 141) \<and>
         (display_lat a2, display_lon a2, target_lat a2, target_lon a2) = (35, 140, 36, 141))"
proof -
  let ?k = "KStr ''86d624''"
  let ?a1 = "update_target sample_airplane 36 141 (JFloat 90) (JFloat 10000) (JFloat 230)"
  let ?f1 = "\<lparr>last_fetch_time = 1010, cache_data = JList [moved_vector]\<rparr>"
  let ?app1 = "\<lparr>airplanes = [(?k, ?a1)], api_fetcher = ?f1, last_api_update = 1000\<rparr>"
  have u1: "update_airplanes sample_app 1010 (feed [moved_vector]) (\<lambda>_. 1010) = Inr (?app1, True)"
    by (simp add: update_airplanes_def sample_app_def fetch_feed update_airplanes_with_def
        update_one_def parse_moved remove_untracked_def)
  have same: "fst (fetch_airplanes (api_fetcher ?app1) 1015 RequestException) =
              fst (fetch_airplanes (api_fetcher sample_app) 1010 (feed [moved_vector]))"
    by (simp add: fetch_feed sample_app_def) (simp add: fetch_airplanes_def API_UPDATE_INTERVAL_def)
  have it: "py_iter (fst (fetch_airplanes (api_fetcher sample_app) 1010 (feed [moved_vector])))
              = Inr [moved_vector]"
    by (simp add: fetch_feed sample_app_def)
  have t: "\<forall>k a. map_of (airplanes ?app1) k = Some a \<and> k \<notin> set (snapshot_keys [moved_vector]) \<longrightarrow>
             (\<lambda>_. 1015) k - last_api_update sample_app \<le> 60"
    by (simp add: sample_app_def)
  from update_airplanes_same_snapshot_twice[OF u1 same it t] obtain app2 q2 where
    u2: "update_airplanes ?app1 1015 RequestException (\<lambda>_. 1015) = Inr (app2, q2)" and
    ks: "map fst (airplanes app2) = map fst (airplanes ?app1)" and
    ps: "\<forall>k a1. map_of (airplanes ?app1) k = Some a1 \<longrightarrow>
              (\<exists>a2. map_of (airplanes app2) k = Some a2 \<and>
                 display_lat a2 = display_lat a1 \<and> display_lon a2 = display_lon a1 \<and>
                 target_lat a2 = target_lat a1 \<and> target_lon a2 = target_lon a1)"
    by blast
  have m1: "map_of (airplanes ?app1) ?k = Some ?a1" by simp
  with ps obtain a2 where a2: "map_of (airplanes app2) ?k = Some a2"
    "display_lat a2 = display_lat ?a1" "display_lon a2 = display_lon ?a1"
    "target_lat a2 = target_lat ?a1" "target_lon a2 = target_lon ?a1" by blast
  have v: "(display_lat ?a1, display_lon ?a1, target_lat ?a1, target_lon ?a1) = (35, 140, 36, 141)"
    by (simp add: update_target_def Let_def sample_airplane_def)
  have k1: "map fst (airplanes ?app1) = [?k]" by simp
  from u1 u2 k1 ks m1 a2 v show ?thesis
    by (intro exI[of _ ?app1] exI[of _ app2] exI[of _ q2] exI[of _ ?a1] exI[of _ a2]) simp
qed

text \<open>
  Claim C9, as stated: the update never raises on a malformed record. A record with
  position inside the region whose call sign is the number 5 passes the parser, and the
  constructor raises \<^verbatim>\<open>AttributeError\<close> on it (a number has no \<^verbatim>\<open>strip\<close>); the exception
  leaves \<^verbatim>\<open>update_airplanes\<close>, and the well-formed record after it is not processed.
\<close>

theorem numeric_callsign_raises:
  "update_airplanes AirplaneTrackingApp_init 1000
     (feed [JList [JStr ''86d624'', JInt 5, JStr ''Japan'', JInt 1700000000, JInt 1700000000,
                   JFloat 140, JFloat 35, JFloat 10000, JBool False, JFloat 230,
                   JFloat 90, JNull, JNull, JFloat 10300, JNull, JBool False, JInt 0],
            sample_vector]) (\<lambda>_. 1000) = Inl AttributeError"
  by (simp add: update_airplanes_def AirplaneTrackingApp_init_def AviationAPIFetcher_init_def
      fetch_feed update_airplanes_with_def update_one_def parse_airplane_data_def
      ASIA_MIN_LAT_def ASIA_MAX_LAT_def ASIA_MIN_LON_def ASIA_MAX_LON_def
      Airplane_init_def init_callsign_def)

text \<open>
  Claim C9, amended: the parser accepts a record only if it is a list of at least 11
  entries whose longitude and latitude are present, are numbers and lie inside the region;
  every other record gives \<^verbatim>\<open>None\<close>. A record the parser rejects is skipped without an
  exception and without any change of state, and the loop does to the remaining records
  what it would do without the rejected ones. A fetch that fails (the request raises, the
  status is not 200, the body is not JSON or not an object) returns the cached snapshot
  and leaves the fetcher unchanged.
\<close>

theorem rejected_records_skipped:
  "(\<forall>d. parse_airplane_data sv = Some d \<longrightarrow>
      (\<exists>xs lat lon. sv = JList xs \<and> 11 \<le> length xs \<and> xs ! 5 \<noteq> JNull \<and> xs ! 6 \<noteq> JNull \<and>
        py_number (xs ! 6) = Some lat \<and> py_number (xs ! 5) = Some lon \<and>
        ASIA_MIN_LAT \<le> lat \<and> lat \<le> ASIA_MAX_LAT \<and> ASIA_MIN_LON \<le> lon \<and> lon \<le> ASIA_MAX_LON)) \<and>
   (parse_airplane_data sv = None \<longrightarrow> update_one st sv = Inr st) \<and>
   update_loop st svs = update_loop st (filter (\<lambda>sv. parse_airplane_data sv \<noteq> None) svs) \<and>
   (resp = RequestException \<or>
    (\<exists>c b. resp = Response c b \<and>
       (c \<noteq> 200 \<or> b = None \<or> (\<exists>data e. b = Some data \<and> get_states data = Inl e))) \<longrightarrow>
    fst (fetch_airplanes f t resp) = cache_data f \<and> fst (snd (fetch_airplanes f t resp)) = f)"
  using parse_Some update_one_skip update_loop_skips fetch_failed by blast

theorem rejected_records_skipped_witness:
  "parse_airplane_data (JList [JStr ''aaa111'', JStr ''NOPOS'', JStr ''Japan'', JNull, JInt 0, JNull, JNull]) = None \<and>
   update_one ([], []) (JList [JStr ''aaa111'', JStr ''NOPOS'', JStr ''Japan'', JNull, JInt 0, JNull, JNull])
     = Inr ([], []) \<and>
   update_loop ([], [])
     [JList [JStr ''aaa111'', JStr ''NOPOS'', JStr ''Japan'', JNull, JInt 0, JNull, JNull],
      JInt 3, JList [], sample_vector]
     = Inr ([(KStr ''86d624'', sample_airplane)], [KStr ''86d624'']) \<and>
   fst (fetch_airplanes (api_fetcher sample_app) 1010 (Response 503 None)) = JList [sample_vector] \<and>
   fst (snd (fetch_airplanes (api_fetcher sample_app) 1010 (Response 503 None))) = api_fetcher sample_app"
proof -
  let ?bad = "JList [JStr ''aaa111'', JStr ''NOPOS'', JStr ''Japan'', JNull, JInt 0, JNull, JNull]"
  let ?svs = "[?bad, JInt 3, JList [], sample_vector]"
  note w = rejected_records_skipped
    [of ?bad "([], [])" ?svs "Response 503 None" "api_fetcher sample_app" 1010]
  have p: "parse_airplane_data ?bad = None" by (simp add: parse_airplane_data_def)
  have q: "parse_airplane_data (JInt 3) = None" "parse_airplane_data (JList []) = None"
    by (simp_all add: parse_airplane_data_def)
  have fl: "filter (\<lambda>sv. parse_airplane_data sv \<noteq> None) ?svs = [sample_vector]"
    by (simp add: p q parse_sample)
  from w p have one: "update_one ([], []) ?bad = Inr ([], [])" by blast
  from w have "update_loop ([], []) ?svs =
      update_loop ([], []) (filter (\<lambda>sv. parse_airplane_data sv \<noteq> None) ?svs)" by blast
  then have loop: "update_loop ([], []) ?svs
      = Inr ([(KStr ''86d624'', sample_airplane)], [KStr ''86d624''])"
    by (simp only: fl) (simp add: update_one_sample)
  from w have "fst (fetch_airplanes (api_fetcher sample_app) 1010 (Response 503 None))
        = cache_data (api_fetcher sample_app) \<and>
      fst (snd (fetch_airplanes (api_fetcher sample_app) 1010 (Response 503 None)))
        = api_fetcher sample_app" by blast
  then have fe: "fst (fetch_airplanes (api_fetcher sample_app) 1010 (Response 503 None))
        = JList [sample_vector] \<and>
      fst (snd (fetch_airplanes (api_fetcher sample_app) 1010 (Response 503 None)))
        = api_fetcher sample_app" by (simp add: sample_app_def)
  from p one loop fe show ?thesis by blast
qed

end
